theory Spec2Isabelle
  imports Main "HOL-Library.Log_Nat" "HOL-Library.Sublist"
begin

section \<open>Python values used by the pipeline\<close>

subsection \<open>Floats\<close>

text \<open>
  A Python float is an IEEE binary64 value: a finite number, one of the two infinities, or
  NaN. Finite values are carried as rationals. Comparisons follow IEEE: every comparison
  with NaN is false except \<open>!=\<close>.
\<close>

datatype pyfloat = Fin rat | PosInf | NegInf | NaN

fun py_lt :: "pyfloat \<Rightarrow> pyfloat \<Rightarrow> bool" where
  "py_lt NaN _ = False"
| "py_lt _ NaN = False"
| "py_lt (Fin a) (Fin b) = (a < b)"
| "py_lt (Fin _) PosInf = True"
| "py_lt (Fin _) NegInf = False"
| "py_lt PosInf _ = False"
| "py_lt NegInf NegInf = False"
| "py_lt NegInf _ = True"

fun py_eq :: "pyfloat \<Rightarrow> pyfloat \<Rightarrow> bool" where
  "py_eq NaN _ = False"
| "py_eq _ NaN = False"
| "py_eq a b = (a = b)"

definition py_gt :: "pyfloat \<Rightarrow> pyfloat \<Rightarrow> bool" where
  "py_gt a b = py_lt b a"

definition py_ge :: "pyfloat \<Rightarrow> pyfloat \<Rightarrow> bool" where
  "py_ge a b = (py_lt b a \<or> py_eq a b)"

definition py_ne :: "pyfloat \<Rightarrow> pyfloat \<Rightarrow> bool" where
  "py_ne a b = (\<not> py_eq a b)"

text \<open>
  \<open>min(a, b)\<close> and \<open>max(a, b)\<close> of Python return the first argument unless the second is
  strictly smaller (strictly larger).
\<close>

definition py_min :: "pyfloat \<Rightarrow> pyfloat \<Rightarrow> pyfloat" where
  "py_min a b = (if py_lt b a then b else a)"

definition py_max :: "pyfloat \<Rightarrow> pyfloat \<Rightarrow> pyfloat" where
  "py_max a b = (if py_gt b a then b else a)"

text \<open>
  Rounding of an exact result to binary64: round to nearest, ties to even, on a 53-bit
  significand. The exponent range is not bounded here (no overflow to infinity, no
  subnormals): token counts, batch sizes and clock readings are far inside the range.
\<close>

definition pow2 :: "int \<Rightarrow> rat" where
  "pow2 e = (if 0 \<le> e then 2 ^ nat e else 1 / 2 ^ nat (- e))"

definition round_even :: "rat \<Rightarrow> int" where
  "round_even q =
     (let f = \<lfloor>q\<rfloor>; d = q - of_int f
      in if d < 1 / 2 then f
         else if 1 / 2 < d then f + 1
         else if even f then f else f + 1)"

definition binexp :: "rat \<Rightarrow> int" where
  \<comment> \<open>the \<open>e\<close> with \<open>2 ^ e \<le> a < 2 ^ (e + 1)\<close>, for \<open>a > 0\<close>\<close>
  "binexp a =
     (let (n, d) = quotient_of a; e0 = bitlen n - bitlen d
      in if pow2 e0 \<le> a then e0 else e0 - 1)"

definition fl :: "rat \<Rightarrow> rat" where
  "fl q =
     (if q = 0 then 0
      else let a = \<bar>q\<bar>; u = pow2 (binexp a - 52)
           in sgn q * of_int (round_even (a / u)) * u)"

text \<open>A float literal of the source, such as \<open>0.2\<close>, is the double nearest to it.\<close>

definition float_lit :: "rat \<Rightarrow> pyfloat" where
  "float_lit q = Fin (fl q)"

subsection \<open>Lists\<close>

text \<open>
  The slice \<open>xs[:k]\<close>: a negative \<open>k\<close> counts from the end, and an out-of-range bound is
  clipped.
\<close>

definition slice_to :: "int \<Rightarrow> 'a list \<Rightarrow> 'a list" where
  "slice_to k xs = (if 0 \<le> k then take (nat k) xs else take (nat (int (length xs) + k)) xs)"

section \<open>Retriever\<close>

text \<open>
  A search hit is a dictionary in the source. The keys the retriever reads are fields
  here; a key that may be absent is an option. \<open>file_path\<close> is
  \<open>r.get("metadata", {}).get("file_path", "")\<close>.
\<close>

record hit =
  hit_text :: string
  hit_source_type :: string
  hit_source_name :: string
  file_path :: string
  score :: "pyfloat option"
  rerank_score :: "pyfloat option"
  is_fallback :: "bool option"

record retriever =
  top_k_search :: int
  top_k_rerank :: int
  score_threshold :: pyfloat
  voyage_api_key :: "string option"

text \<open>\<open>RETRIEVAL\<close> of \<open>config.py\<close>, and the retriever built from it.\<close>

definition RETRIEVAL_top_k_search :: int where
  "RETRIEVAL_top_k_search = 50"

definition RETRIEVAL_top_k_rerank :: int where
  "RETRIEVAL_top_k_rerank = 10"

definition RETRIEVAL_score_threshold :: pyfloat where
  "RETRIEVAL_score_threshold = float_lit (- 5)"

definition Retriever_init :: "string option \<Rightarrow> retriever" where
  "Retriever_init key =
     \<lparr>top_k_search = RETRIEVAL_top_k_search,
      top_k_rerank = RETRIEVAL_top_k_rerank,
      score_threshold = RETRIEVAL_score_threshold,
      voyage_api_key = key\<rparr>"

subsection \<open>Threshold filter of \<open>search\<close>\<close>

text \<open>\<open>r.get("rerank_score", 0)\<close> and \<open>r.get("_is_fallback", False)\<close>.\<close>

definition get_rerank_score :: "hit \<Rightarrow> pyfloat" where
  "get_rerank_score r = (case rerank_score r of None \<Rightarrow> Fin 0 | Some s \<Rightarrow> s)"

definition get_is_fallback :: "hit \<Rightarrow> bool" where
  "get_is_fallback r = (case is_fallback r of None \<Rightarrow> False | Some b \<Rightarrow> b)"

text \<open>
  \<open>is_fallback = all("rerank_score" in r and r.get("_is_fallback", False) for r in reranked)\<close>
\<close>

definition all_fallback :: "hit list \<Rightarrow> bool" where
  "all_fallback reranked = list_all (\<lambda>r. rerank_score r \<noteq> None \<and> get_is_fallback r) reranked"

definition fallback_floor :: pyfloat where
  "fallback_floor = float_lit (1 / 5)"

definition active_threshold :: "retriever \<Rightarrow> hit list \<Rightarrow> pyfloat" where
  "active_threshold rt reranked =
     (if all_fallback reranked then fallback_floor else score_threshold rt)"

definition filter_by_threshold :: "pyfloat \<Rightarrow> hit list \<Rightarrow> hit list" where
  "filter_by_threshold threshold reranked =
     filter (\<lambda>r. py_ge (get_rerank_score r) threshold) reranked"

text \<open>
  Lines 108 to 125 of \<open>search\<close>: choose the threshold, filter, and return the first three
  reranked results when the filter leaves nothing.
\<close>

definition search_filter :: "retriever \<Rightarrow> hit list \<Rightarrow> hit list" where
  "search_filter rt reranked =
     (let threshold = active_threshold rt reranked;
          filtered = filter_by_threshold threshold reranked
      in if filtered = [] \<and> reranked \<noteq> [] then slice_to 3 reranked else filtered)"

subsection \<open>Fallback ranking\<close>

text \<open>\<open>max(0.0, min(1.0, float(raw_score)))\<close> with \<open>raw_score = r.get("score", 0.5)\<close>.\<close>

definition clamp01 :: "pyfloat \<Rightarrow> pyfloat" where
  "clamp01 x = py_max (Fin 0) (py_min (Fin 1) x)"

definition get_score :: "hit \<Rightarrow> pyfloat" where
  "get_score r = (case score r of None \<Rightarrow> float_lit (1 / 2) | Some s \<Rightarrow> s)"

definition mark_fallback :: "hit \<Rightarrow> hit" where
  "mark_fallback r = r\<lparr>rerank_score := Some (clamp01 (get_score r)), is_fallback := Some True\<rparr>"

text \<open>
  \<open>top.sort(key=lambda x: x["rerank_score"], reverse=True)\<close>: a stable sort into descending
  order that compares keys with \<open><\<close> only. The key is present on every element of \<open>top\<close>
  and is never NaN there, so the keys are totally ordered and the result is the one stable
  descending arrangement, which insertion from the right computes.
\<close>

fun insort_desc :: "hit \<Rightarrow> hit list \<Rightarrow> hit list" where
  "insort_desc x [] = [x]"
| "insort_desc x (y # ys) =
     (if py_lt (get_rerank_score x) (get_rerank_score y) then y # insort_desc x ys
      else x # y # ys)"

definition sort_desc :: "hit list \<Rightarrow> hit list" where
  "sort_desc xs = foldr insort_desc xs []"

definition fallback_rank :: "retriever \<Rightarrow> hit list \<Rightarrow> hit list" where
  "fallback_rank rt results = sort_desc (map mark_fallback (slice_to (top_k_rerank rt) results))"

subsection \<open>Remote reranking\<close>

text \<open>
  The request sent to the rerank service and what comes back: a timeout, another exception
  (connection error, a body that is not JSON), or a response with its status code and the
  list under \<open>"data"\<close>. An item of that list may lack either key.
\<close>

record rerank_request =
  req_query :: string
  req_documents :: "string list"
  req_top_k :: int

record rerank_item =
  item_index :: "int option"
  relevance_score :: "pyfloat option"

datatype http_result = Timeout | Failure | Response int "rerank_item list"

definition document_of :: "hit \<Rightarrow> string" where
  "document_of r =
     (if file_path r \<noteq> [] then ''[File: '' @ file_path r @ '']'' @ [CHR 0x0A] @ hit_text r
      else hit_text r)"

text \<open>
  \<open>results[index]\<close>: a negative index counts from the end; outside \<open>-len \<le> index < len\<close>
  the source raises IndexError, which is \<open>None\<close> here.
\<close>

definition py_index :: "'a list \<Rightarrow> int \<Rightarrow> 'a option" where
  "py_index xs i =
     (let n = int (length xs)
      in if 0 \<le> i \<and> i < n then Some (xs ! nat i)
         else if - n \<le> i \<and> i < 0 then Some (xs ! nat (n + i))
         else None)"

definition get_index :: "rerank_item \<Rightarrow> int" where
  "get_index it = (case item_index it of None \<Rightarrow> 0 | Some i \<Rightarrow> i)"

definition get_relevance :: "rerank_item \<Rightarrow> pyfloat" where
  "get_relevance it = (case relevance_score it of None \<Rightarrow> Fin 0 | Some s \<Rightarrow> s)"

text \<open>
  The mapping loop of \<open>_rerank\<close> (lines 174 to 182). \<open>None\<close> is an IndexError raised inside
  the loop, which leaves the \<open>try\<close> block.
\<close>

fun map_items :: "hit list \<Rightarrow> rerank_item list \<Rightarrow> hit list option" where
  "map_items results [] = Some []"
| "map_items results (it # its) =
     (if get_index it < int (length results) then
        (case py_index results (get_index it) of
           None \<Rightarrow> None
         | Some r \<Rightarrow>
             (case map_items results its of
                None \<Rightarrow> None
              | Some rest \<Rightarrow> Some (r\<lparr>rerank_score := Some (get_relevance it)\<rparr> # rest)))
      else map_items results its)"

definition has_key :: "retriever \<Rightarrow> bool" where
  "has_key rt = (case voyage_api_key rt of None \<Rightarrow> False | Some k \<Rightarrow> k \<noteq> [])"

definition rerank :: "retriever \<Rightarrow> (rerank_request \<Rightarrow> http_result) \<Rightarrow> string \<Rightarrow> hit list \<Rightarrow> hit list" where
  "rerank rt remote query results =
     (if results = [] then []
      else if \<not> has_key rt then fallback_rank rt results
      else
        (case remote \<lparr>req_query = query, req_documents = map document_of results,
                      req_top_k = top_k_rerank rt\<rparr> of
           Timeout \<Rightarrow> fallback_rank rt results
         | Failure \<Rightarrow> fallback_rank rt results
         | Response status items \<Rightarrow>
             if status \<noteq> 200 then fallback_rank rt results
             else if items = [] then fallback_rank rt results
             else (case map_items results items of
                     None \<Rightarrow> fallback_rank rt results
                   | Some reranked_results \<Rightarrow> reranked_results)))"

text \<open>
  \<open>search\<close> from line 98 on. Its argument \<open>results\<close> is the candidate list that lines 71 to
  96 produce (query embedding, vector search, filename boost).
\<close>

definition search :: "retriever \<Rightarrow> (rerank_request \<Rightarrow> http_result) \<Rightarrow> string \<Rightarrow> hit list \<Rightarrow> hit list" where
  "search rt remote query results =
     (if results = [] then [] else search_filter rt (rerank rt remote query results))"

section \<open>Rate budget\<close>

text \<open>
  The embedder and the AI parser each keep the same window counters; the fields they share
  are one record, extended by each client.
\<close>

record budget =
  rpm_limit :: int
  tpm_limit :: int
  window_seconds :: int
  window_start :: rat
  window_requests :: int
  window_tokens :: int

text \<open>
  \<open>_wait_for_budget\<close> reads \<open>time.time()\<close> up to three times: on entry, when it rolls an
  elapsed window over, and after it has slept. The readings are inputs of the model.
  Sleeping changes no field, so it shows only in the later readings.
\<close>

record clock =
  t_now :: rat
  t_rollover :: rat
  t_resume :: rat

text \<open>
  The first lines of \<open>_wait_for_budget\<close> in both clients:
  \<open>elapsed = now - self._window_start\<close>, and the reset when
  \<open>elapsed >= self._window_seconds\<close>.
\<close>

definition roll_window :: "clock \<Rightarrow> 'a budget_scheme \<Rightarrow> 'a budget_scheme" where
  "roll_window ck b =
     (let elapsed = fl (t_now ck - window_start b)
      in if of_int (window_seconds b) \<le> elapsed
         then b\<lparr>window_start := t_rollover ck, window_requests := 0, window_tokens := 0\<rparr>
         else b)"

definition reset_window :: "clock \<Rightarrow> 'a budget_scheme \<Rightarrow> 'a budget_scheme" where
  "reset_window ck b = b\<lparr>window_start := t_resume ck, window_requests := 0, window_tokens := 0\<rparr>"

section \<open>Embedder\<close>

text \<open>
  \<open>tokenizer\<close> is \<open>None\<close> when tiktoken is not installed; otherwise it gives the number of
  tokens of a text, \<open>len(self._tokenizer.encode(t))\<close>.
\<close>

record embedder = budget +
  batch_size :: int
  tokenizer :: "(string \<Rightarrow> nat) option"

definition estimate_tokens :: "embedder \<Rightarrow> string list \<Rightarrow> int" where
  "estimate_tokens e texts =
     (case tokenizer e of
        None \<Rightarrow> max 1 (int (sum_list (map length texts)) div 4)
      | Some encode_len \<Rightarrow>
          max 1 (int (sum_list (map (\<lambda>t. if t = [] then 0 else encode_len t) texts))))"

definition wait_for_budget :: "clock \<Rightarrow> int \<Rightarrow> int \<Rightarrow> embedder \<Rightarrow> embedder" where
  "wait_for_budget ck requests_cost tokens_cost e =
     (let e1 = roll_window ck e;
          exceeds_rpm = (rpm_limit e1 < window_requests e1 + requests_cost);
          exceeds_tpm = (tpm_limit e1 < window_tokens e1 + tokens_cost)
      in if \<not> (exceeds_rpm \<or> exceeds_tpm) then e1 else reset_window ck e1)"

text \<open>
  The slice \<open>xs[lo:hi]\<close>, and \<open>int(x)\<close> of a float, which truncates towards zero.
\<close>

definition clip_index :: "nat \<Rightarrow> int \<Rightarrow> nat" where
  "clip_index n i = (if i < 0 then nat (max 0 (int n + i)) else min (nat i) n)"

definition py_slice :: "int \<Rightarrow> int \<Rightarrow> 'a list \<Rightarrow> 'a list" where
  "py_slice lo hi xs =
     (let a = clip_index (length xs) lo; b = clip_index (length xs) hi
      in take (b - a) (drop a xs))"

definition py_trunc :: "rat \<Rightarrow> int" where
  "py_trunc q = (if 0 \<le> q then \<lfloor>q\<rfloor> else \<lceil>q\<rceil>)"

text \<open>
  Lines 170 and 171 of \<open>embed_documents\<close>:
  \<open>shrink_ratio = max(0.01, self._tpm_limit / float(estimated_tokens))\<close> and
  \<open>new_size = max(1, int(len(batch) * shrink_ratio))\<close>, each float operation rounded.
\<close>

definition shrink_ratio :: "int \<Rightarrow> int \<Rightarrow> rat" where
  "shrink_ratio tpm estimated_tokens =
     (let q = fl (fl (of_int tpm) / fl (of_int estimated_tokens))
      in if fl (1 / 100) < q then q else fl (1 / 100))"

definition shrink_size :: "int \<Rightarrow> nat \<Rightarrow> int \<Rightarrow> int" where
  "shrink_size tpm len estimated_tokens =
     max 1 (py_trunc (fl (fl (of_nat len) * shrink_ratio tpm estimated_tokens)))"

text \<open>
  Lines 163 to 174: the batch starting at \<open>i\<close> and its estimate, after the shrink step
  when the estimate exceeds the TPM limit and the batch has more than one item.
\<close>

definition select_batch :: "embedder \<Rightarrow> string list \<Rightarrow> int \<Rightarrow> string list \<times> int" where
  "select_batch e texts i =
     (let batch = py_slice i (i + batch_size e) texts;
          estimated_tokens = estimate_tokens e batch
      in if tpm_limit e < estimated_tokens \<and> 1 < length batch then
           (let new_size = shrink_size (tpm_limit e) (length batch) estimated_tokens;
                batch' = py_slice i (i + new_size) texts
            in (batch', estimate_tokens e batch'))
         else (batch, estimated_tokens))"

text \<open>
  Lines 176 to 180 and 204 to 207: wait for budget, then reserve one request and the
  estimated tokens.
\<close>

definition reserve_budget :: "clock \<Rightarrow> int \<Rightarrow> embedder \<Rightarrow> embedder" where
  "reserve_budget ck estimated_tokens e =
     (let e1 = wait_for_budget ck 1 estimated_tokens e
      in e1\<lparr>window_requests := window_requests e1 + 1,
             window_tokens := window_tokens e1 + estimated_tokens\<rparr>)"

text \<open>
  Lines 188, 189 and 210, 211: the provider's \<open>prompt_tokens\<close>, when it is a non-negative
  int, replaces the estimate in the window.
\<close>

definition reconcile :: "int option \<Rightarrow> int \<Rightarrow> embedder \<Rightarrow> embedder" where
  "reconcile prompt_tokens estimated_tokens e =
     (case prompt_tokens of
        None \<Rightarrow> e
      | Some p \<Rightarrow>
          if 0 \<le> p then e\<lparr>window_tokens := window_tokens e + (p - estimated_tokens)\<rparr> else e)"

text \<open>The reservation of \<open>embed_query\<close>, and of one iteration of \<open>embed_documents\<close>.\<close>

definition embed_query_reserve :: "clock \<Rightarrow> string \<Rightarrow> embedder \<Rightarrow> embedder" where
  "embed_query_reserve ck query e = reserve_budget ck (estimate_tokens e [query]) e"

definition embed_documents_reserve ::
  "clock \<Rightarrow> string list \<Rightarrow> int \<Rightarrow> embedder \<Rightarrow> string list \<times> embedder" where
  "embed_documents_reserve ck texts i e =
     (let (batch, estimated_tokens) = select_batch e texts i
      in (batch, reserve_budget ck estimated_tokens e))"

text \<open>
  A run of the client: each step reserves for an estimate, the remote call reports its
  usage (or none), and the window is reconciled. The result lists the state just after
  each reservation.
\<close>

fun reservations :: "embedder \<Rightarrow> (clock \<times> int \<times> int option) list \<Rightarrow> embedder list" where
  "reservations e [] = []"
| "reservations e ((ck, estimated_tokens, prompt_tokens) # rest) =
     (let e1 = reserve_budget ck estimated_tokens e
      in e1 # reservations (reconcile prompt_tokens estimated_tokens e1) rest)"

section \<open>Strings\<close>

text \<open>
  A string is a list of characters with code points below 256. \<open>str.strip()\<close> removes
  leading and trailing whitespace; in this range \<open>str.isspace\<close> holds for 9 to 13, 28 to 32,
  133 and 160. \<open>str.lower()\<close> changes the capital letters of this range: 65 to 90, and
  192 to 222 without 215.
\<close>

definition is_space :: "char \<Rightarrow> bool" where
  "is_space c =
     (let n = (of_char c :: nat)
      in (9 \<le> n \<and> n \<le> 13) \<or> (28 \<le> n \<and> n \<le> 32) \<or> n = 133 \<or> n = 160)"

definition strip :: "string \<Rightarrow> string" where
  "strip s = rev (dropWhile is_space (rev (dropWhile is_space s)))"

definition lower_char :: "char \<Rightarrow> char" where
  "lower_char c =
     (let n = (of_char c :: nat)
      in if (65 \<le> n \<and> n \<le> 90) \<or> (192 \<le> n \<and> n \<le> 222 \<and> n \<noteq> 215) then char_of (n + 32)
         else c)"

definition lower :: "string \<Rightarrow> string" where
  "lower s = map lower_char s"

text \<open>\<open>sub in s\<close> for strings.\<close>

fun contains :: "string \<Rightarrow> string \<Rightarrow> bool" where
  "contains sub [] = (sub = [])"
| "contains sub (c # cs) = (prefix sub (c # cs) \<or> contains sub cs)"

fun join :: "string \<Rightarrow> string list \<Rightarrow> string" where
  "join sep [] = []"
| "join sep [l] = l"
| "join sep (l # ls) = l @ sep @ join sep ls"

section \<open>AI parser\<close>

text \<open>
  \<open>client_available\<close> says whether the \<open>groq\<close> package can be imported, which
  \<open>_get_client\<close> needs.
\<close>

record ai_parser = budget +
  tpd_limit :: int
  daily_tokens :: int
  max_tokens :: int
  client_available :: bool

text \<open>Both errors are \<open>RuntimeError\<close> in the source.\<close>

datatype py_error = DailyLimitExceeded | GroqNotInstalled

definition parser_estimate_tokens :: "string \<Rightarrow> int" where
  "parser_estimate_tokens s = max 1 (int (length s) div 4)"

text \<open>
  \<open>AIParser._wait_for_budget\<close>. The object is changed in place, so the state is returned
  also when the call raises: the first component is the error raised, if any.
\<close>

definition parser_wait_for_budget ::
  "clock \<Rightarrow> int \<Rightarrow> ai_parser \<Rightarrow> py_error option \<times> ai_parser" where
  "parser_wait_for_budget ck estimated_tokens p =
     (let p1 = roll_window ck p;
          exceeds_rpm = (rpm_limit p1 < window_requests p1 + 1);
          exceeds_tpm = (tpm_limit p1 < window_tokens p1 + estimated_tokens);
          exceeds_tpd = (tpd_limit p1 < daily_tokens p1 + estimated_tokens)
      in if \<not> (exceeds_rpm \<or> exceeds_tpm \<or> exceeds_tpd) then (None, p1)
         else if exceeds_tpd then (Some DailyLimitExceeded, p1)
         else (None, reset_window ck p1))"

text \<open>
  The remote model and the clock are the environment of a call: the outcome of the
  \<open>n\<close>-th completion request for a prompt (a text, possibly \<open>None\<close>, or an exception with
  its message), and the clock readings of the \<open>n\<close>-th budget check. The trace counts how
  many of each have happened.
\<close>

datatype llm_outcome = Completion "string option" | Raised string

record environment =
  llm :: "nat \<Rightarrow> string \<Rightarrow> llm_outcome"
  clocks :: "nat \<Rightarrow> clock"

record trace =
  llm_calls :: nat
  budget_checks :: nat

definition newline :: string where
  "newline = [CHR 0x0A]"

definition build_prompt :: "string \<Rightarrow> string \<Rightarrow> string" where
  "build_prompt page_url raw_content = join newline
     [''You are a content parser. Your task is to extract and structure the main content from raw web page data.'',
      [],
      ''Rules:'',
      ''1. Remove ALL navigation, headers, footers, sidebars, ads, cookie notices'',
      ''2. Remove ALL markdown syntax, HTML tags, URLs, and formatting artifacts'',
      ''3. Keep ONLY the main article/page content'',
      ''4. Structure the content with clear paragraphs'',
      ''5. Preserve important information: titles, headings (as plain text), lists, tables'',
      ''6. If content is garbage/noise, respond with '' @ [CHR 0x22] @ ''NO_VALID_CONTENT'' @ [CHR 0x22],
      ''7. Do NOT add any commentary or explanations - just the cleaned content'',
      [],
      ''Raw content from '' @ page_url @ '':'',
      [],
      raw_content,
      [],
      ''Cleaned content:'']"

text \<open>
  The retry loop of \<open>parse_content\<close>, with \<open>k\<close> attempts left of \<open>max_retries = 5\<close>. It ends
  with a value to return, or with the request to parse the first 3000 characters again
  (the source returns the result of that recursive call).
\<close>

datatype loop_result = Return "string option" | ParseShorter

definition is_rate_limit_error :: "string \<Rightarrow> bool" where
  "is_rate_limit_error error_str =
     (contains ''429'' error_str \<or> contains ''rate limit'' error_str
      \<or> contains ''too many requests'' error_str)"

definition is_token_limit_error :: "string \<Rightarrow> bool" where
  "is_token_limit_error error_str =
     (contains ''token'' error_str \<and> (contains ''limit'' error_str \<or> contains ''exceed'' error_str))"

fun retry_loop :: "environment \<Rightarrow> string \<Rightarrow> nat \<Rightarrow> nat \<Rightarrow> nat \<Rightarrow> loop_result \<times> nat" where
  "retry_loop env prompt raw_len 0 calls = (Return None, calls)"
| "retry_loop env prompt raw_len (Suc k) calls =
     (case llm env calls prompt of
        Completion result \<Rightarrow>
          (case result of
             None \<Rightarrow> (Return None, Suc calls)
           | Some r \<Rightarrow>
               if r = [] \<or> strip r = ''NO_VALID_CONTENT'' then (Return None, Suc calls)
               else (Return (Some (strip r)), Suc calls))
      | Raised msg \<Rightarrow>
          (let error_str = lower msg
           in if is_rate_limit_error error_str then retry_loop env prompt raw_len k (Suc calls)
              else if is_token_limit_error error_str then
                (if 3000 < raw_len then (ParseShorter, Suc calls) else (Return None, Suc calls))
              else if 0 < k then retry_loop env prompt raw_len k (Suc calls)
              else (Return None, Suc calls)))"

definition truncate_input :: "string \<Rightarrow> string" where
  "truncate_input raw_content =
     (if 6000 < length raw_content then take 6000 raw_content @ newline @ ''...[truncated]''
      else raw_content)"

text \<open>
  \<open>parse_content\<close>. The result is the value returned (\<open>None\<close> for no result) or the error
  that leaves the call, with the parser state and the trace after the call.
\<close>

function parse_content ::
  "environment \<Rightarrow> string \<Rightarrow> string \<Rightarrow> ai_parser \<times> trace \<Rightarrow>
     (py_error + string option) \<times> ai_parser \<times> trace" where
  "parse_content env raw_content page_url (p, tr) =
     (if raw_content = [] \<or> strip raw_content = [] then (Inr None, p, tr)
      else
        (let raw = truncate_input raw_content;
             input_tokens = parser_estimate_tokens raw;
             estimated_tokens = input_tokens + max_tokens p;
             (err, p1) = parser_wait_for_budget (clocks env (budget_checks tr)) estimated_tokens p;
             tr1 = tr\<lparr>budget_checks := Suc (budget_checks tr)\<rparr>
         in case err of
              Some _ \<Rightarrow> (Inr None, p1, tr1)
            | None \<Rightarrow>
                (let p2 = p1\<lparr>window_requests := window_requests p1 + 1,
                               window_tokens := window_tokens p1 + estimated_tokens,
                               daily_tokens := daily_tokens p1 + estimated_tokens\<rparr>
                 in if \<not> client_available p2 then (Inl GroqNotInstalled, p2, tr1)
                    else
                      (case retry_loop env (build_prompt page_url raw) (length raw) 5 (llm_calls tr1) of
                         (Return v, calls) \<Rightarrow> (Inr v, p2, tr1\<lparr>llm_calls := calls\<rparr>)
                       | (ParseShorter, calls) \<Rightarrow>
                           parse_content env (take 3000 raw) page_url
                             (p2, tr1\<lparr>llm_calls := calls\<rparr>)))))"
  by pat_completeness auto

termination parse_content
proof (relation "measure (\<lambda>(env, raw_content, page_url, st). length raw_content)", goal_cases)
  case 1
  show ?case by simp
next
  case (2 env raw_content page_url p tr raw input_tokens estimated_tokens w err p1 tr1 p2 res calls)
  have long: "retry_loop e pr n k c = (ParseShorter, c') \<Longrightarrow> 3000 < n" for e pr n k c c'
    by (induction k arbitrary: c)
       (auto split: llm_outcome.splits option.splits if_splits simp: Let_def)
  from 2 have "retry_loop env (build_prompt page_url raw) (length raw) 5 (llm_calls tr1)
      = (ParseShorter, calls)"
    by simp
  then have "3000 < length raw" by (rule long)
  with 2 have "3000 < length raw_content"
    by (auto simp: truncate_input_def split: if_splits)
  then show ?case by simp
qed

declare parse_content.simps [simp del]

section \<open>Vector store\<close>

text \<open>
  \<open>Chunk\<close> of \<open>ingestion/base.py\<close>. \<open>metadata\<close> is \<open>None\<close> when the attribute is not a
  dict. A row is what \<open>upsert\<close> hands to the database client.
\<close>

record chunk =
  chunk_text :: string
  source_type :: string
  source_name :: string
  metadata :: "(string \<times> string) list option"

record row =
  row_vector :: "pyfloat list"
  row_text :: string
  row_source_type :: string
  row_source_name :: string
  row_metadata :: "(string \<times> string) list"

text \<open>
  \<open>stored\<close> is the content of the database, by collection name: \<open>client.insert\<close> appends
  rows to one collection.
\<close>

record vector_store =
  collection_docs :: string
  collection_chats :: string
  dimensions :: int
  stored :: "string \<Rightarrow> row list"

definition VECTOR_DB_collection_docs :: string where
  "VECTOR_DB_collection_docs = ''rag_documents''"

definition VECTOR_DB_collection_chats :: string where
  "VECTOR_DB_collection_chats = ''rag_conversations''"

definition VECTOR_DB_dimensions :: int where
  "VECTOR_DB_dimensions = 1024"

definition VectorStore_init :: "(string \<Rightarrow> row list) \<Rightarrow> vector_store" where
  "VectorStore_init db =
     \<lparr>collection_docs = VECTOR_DB_collection_docs,
      collection_chats = VECTOR_DB_collection_chats,
      dimensions = VECTOR_DB_dimensions,
      stored = db\<rparr>"

definition get_collection :: "vector_store \<Rightarrow> string \<Rightarrow> string" where
  "get_collection vs st = (if st = ''chat'' then collection_chats vs else collection_docs vs)"

text \<open>The lines \<open>upsert\<close> prints.\<close>

datatype log_line =
    WarnWrongDim nat int
  | WarnNanInf
  | WarnSkipped nat nat
  | WarnNoValidData
  | DebugInserted nat string

text \<open>\<open>any(v != v or v == float('inf') or v == float('-inf') for v in embedding)\<close>\<close>

definition has_nan_inf :: "pyfloat list \<Rightarrow> bool" where
  "has_nan_inf embedding = list_ex (\<lambda>v. py_ne v v \<or> py_eq v PosInf \<or> py_eq v NegInf) embedding"

definition make_row :: "chunk \<Rightarrow> pyfloat list \<Rightarrow> row" where
  "make_row c embedding =
     \<lparr>row_vector = embedding,
      row_text = take 32000 (chunk_text c),
      row_source_type = source_type c,
      row_source_name = take 512 (source_name c),
      row_metadata = (case metadata c of None \<Rightarrow> [] | Some m \<Rightarrow> m)\<rparr>"

text \<open>
  The loop of \<open>upsert\<close> over \<open>zip(chunks, embeddings)\<close>, with the rows built so far, the
  number skipped and the lines printed.
\<close>

fun upsert_loop ::
  "int \<Rightarrow> (chunk \<times> pyfloat list) list \<Rightarrow> row list \<times> nat \<times> log_line list
     \<Rightarrow> row list \<times> nat \<times> log_line list" where
  "upsert_loop dims [] acc = acc"
| "upsert_loop dims ((c, embedding) # rest) (data, skipped, out) =
     (if chunk_text c = [] \<or> strip (chunk_text c) = [] then
        upsert_loop dims rest (data, skipped + 1, out)
      else if embedding = [] \<or> int (length embedding) \<noteq> dims then
        upsert_loop dims rest (data, skipped + 1, out @ [WarnWrongDim (length embedding) dims])
      else if has_nan_inf embedding then
        upsert_loop dims rest (data, skipped + 1, out @ [WarnNanInf])
      else upsert_loop dims rest (data @ [make_row c embedding], skipped, out))"

definition upsert ::
  "vector_store \<Rightarrow> chunk list \<Rightarrow> pyfloat list list \<Rightarrow> vector_store \<times> log_line list" where
  "upsert vs chunks embeddings =
     (case chunks of
        [] \<Rightarrow> (vs, [])
      | first # _ \<Rightarrow>
          if embeddings = [] then (vs, [])
          else
            (let collection_name = get_collection vs (source_type first);
                 (data, skipped, out) = upsert_loop (dimensions vs) (zip chunks embeddings) ([], 0, []);
                 out1 = (if skipped \<noteq> 0 then out @ [WarnSkipped skipped (length chunks)] else out)
             in if data = [] then (vs, out1 @ [WarnNoValidData])
                else (vs\<lparr>stored := (stored vs)(collection_name := stored vs collection_name @ data)\<rparr>,
                      out1 @ [DebugInserted (length data) collection_name])))"

section \<open>Properties stated by the specification\<close>

text \<open>A float is finite when it is neither NaN nor an infinity.\<close>

definition is_finite :: "pyfloat \<Rightarrow> bool" where
  "is_finite x = (case x of Fin _ \<Rightarrow> True | _ \<Rightarrow> False)"

text \<open>
  The specification's validity of a fragment with its vector: the text is not empty after
  trimming, the vector has the configured dimension, and every value is finite.
\<close>

definition blank :: "string \<Rightarrow> bool" where
  "blank s = list_all is_space s"

definition valid_pair :: "int \<Rightarrow> chunk \<times> pyfloat list \<Rightarrow> bool" where
  "valid_pair dims cv =
     (\<not> blank (chunk_text (fst cv)) \<and> int (length (snd cv)) = dims \<and> list_all is_finite (snd cv))"

text \<open>
  What the loop of \<open>upsert\<close> accepts: a valid pair whose vector is not empty (an empty
  vector is skipped even for a configured dimension of 0).
\<close>

definition accepted :: "int \<Rightarrow> chunk \<times> pyfloat list \<Rightarrow> bool" where
  "accepted dims cv = (valid_pair dims cv \<and> snd cv \<noteq> [])"

text \<open>
  The specification's clamp of a similarity into \<open>[0, 1]\<close>: a value above 1 becomes 1 and
  a value below 0 becomes 0. NaN compares false with everything and comes out as 1.
\<close>

definition clamp_unit :: "pyfloat \<Rightarrow> pyfloat" where
  "clamp_unit x =
     (case x of
        Fin c \<Rightarrow> if c < 0 then Fin 0 else if 1 < c then Fin 1 else Fin c
      | PosInf \<Rightarrow> Fin 1
      | NegInf \<Rightarrow> Fin 0
      | NaN \<Rightarrow> Fin 1)"

definition similarity :: "hit \<Rightarrow> pyfloat" where
  "similarity c = (case score c of None \<Rightarrow> Fin (1 / 2) | Some s \<Rightarrow> s)"

text \<open>A fallback score: a finite rerank score between 0 and 1.\<close>

definition unit_score :: "hit \<Rightarrow> bool" where
  "unit_score r = (case rerank_score r of Some (Fin c) \<Rightarrow> 0 \<le> c \<and> c \<le> 1 | _ \<Rightarrow> False)"

definition descending :: "hit list \<Rightarrow> bool" where
  "descending rs = sorted_wrt (\<lambda>a b. py_ge (get_rerank_score a) (get_rerank_score b)) rs"

text \<open>
  The cases in which the remote reranker counts as failed: no key, a timeout, a status
  other than 200, or an empty data list.
\<close>

definition reranker_unavailable :: "retriever \<Rightarrow> http_result \<Rightarrow> bool" where
  "reranker_unavailable rt resp =
     (\<not> has_key rt \<or>
      (case resp of
         Timeout \<Rightarrow> True
       | Failure \<Rightarrow> True
       | Response status items \<Rightarrow> status \<noteq> 200 \<or> items = []))"

section \<open>Sample inputs\<close>

text \<open>Four search hits, in the order the vector store returns them.\<close>

definition hit_a :: hit where
  "hit_a = \<lparr>hit_text = ''def login(user): ...'', hit_source_type = ''github'',
            hit_source_name = ''repo'', file_path = ''src/auth.py'',
            score = Some (Fin (3 / 4)), rerank_score = None, is_fallback = None\<rparr>"

definition hit_b :: hit where
  "hit_b = \<lparr>hit_text = ''Sessions expire after one hour.'', hit_source_type = ''pdf'',
            hit_source_name = ''manual.pdf'', file_path = [],
            score = Some (Fin (1 / 2)), rerank_score = None, is_fallback = None\<rparr>"

definition hit_c :: hit where
  "hit_c = \<lparr>hit_text = ''hello'', hit_source_type = ''chat'',
            hit_source_name = ''export.json'', file_path = [],
            score = Some (Fin (1 / 4)), rerank_score = None, is_fallback = None\<rparr>"

definition hit_d :: hit where
  "hit_d = \<lparr>hit_text = ''id,name'', hit_source_type = ''csv'',
            hit_source_name = ''users.csv'', file_path = [],
            score = Some (Fin (1 / 8)), rerank_score = None, is_fallback = None\<rparr>"

text \<open>A reranker that scores the four hits below the configured floor of \<open>-5\<close>.\<close>

definition low_scores :: "rerank_request \<Rightarrow> http_result" where
  "low_scores req = Response 200
     [\<lparr>item_index = Some 2, relevance_score = Some (Fin (- 6))\<rparr>,
      \<lparr>item_index = Some 0, relevance_score = Some (Fin (- 7))\<rparr>,
      \<lparr>item_index = Some 3, relevance_score = Some (Fin (- 8))\<rparr>,
      \<lparr>item_index = Some 1, relevance_score = Some (Fin (- 9))\<rparr>]"

definition low_reranked :: "hit list" where
  "low_reranked =
     [hit_c\<lparr>rerank_score := Some (Fin (- 6))\<rparr>, hit_a\<lparr>rerank_score := Some (Fin (- 7))\<rparr>,
      hit_d\<lparr>rerank_score := Some (Fin (- 8))\<rparr>, hit_b\<lparr>rerank_score := Some (Fin (- 9))\<rparr>]"

definition mixed_set :: "hit list" where
  "mixed_set =
     [hit_a\<lparr>rerank_score := Some (Fin (1 / 2)), is_fallback := Some True\<rparr>,
      hit_b\<lparr>rerank_score := Some (Fin (1 / 10))\<rparr>]"

definition fallback_set :: "hit list" where
  "fallback_set =
     [hit_a\<lparr>rerank_score := Some (Fin (1 / 2)), is_fallback := Some True\<rparr>,
      hit_b\<lparr>rerank_score := Some (Fin (1 / 10)), is_fallback := Some True\<rparr>]"

text \<open>A reranker that answers with the index \<open>-1\<close>, and one that answers with status 503.\<close>

definition negative_index :: "rerank_request \<Rightarrow> http_result" where
  "negative_index req = Response 200 [\<lparr>item_index = Some (- 1), relevance_score = Some (Fin (1 / 2))\<rparr>]"

definition service_unavailable :: "rerank_request \<Rightarrow> http_result" where
  "service_unavailable req = Response 503 []"

text \<open>
  Hits with similarities outside \<open>[0, 1]\<close> and with NaN, and a retriever that keeps three
  results.
\<close>

definition hit_nan :: hit where
  "hit_nan = hit_d\<lparr>score := Some NaN\<rparr>"

definition hit_low :: hit where
  "hit_low = hit_c\<lparr>score := Some (Fin (- 1 / 4))\<rparr>"

definition hit_high :: hit where
  "hit_high = hit_a\<lparr>score := Some (Fin (3 / 2))\<rparr>"

definition retriever3 :: retriever where
  "retriever3 = (Retriever_init (Some ''key''))\<lparr>top_k_rerank := 3\<rparr>"

text \<open>An embedder without tokenizer at the start of a window, and a clock that has not moved.\<close>

definition embedder0 :: "int \<Rightarrow> int \<Rightarrow> int \<Rightarrow> embedder" where
  "embedder0 rpm tpm bs =
     \<lparr>rpm_limit = rpm, tpm_limit = tpm, window_seconds = 60, window_start = 0,
      window_requests = 0, window_tokens = 0, batch_size = bs, tokenizer = None\<rparr>"

definition clock0 :: clock where
  "clock0 = \<lparr>t_now = 0, t_rollover = 0, t_resume = 0\<rparr>"

text \<open>Three reservations of 400 tokens and one of 2500, none reconciled.\<close>

definition sample_calls :: "(clock \<times> int \<times> int option) list" where
  "sample_calls =
     [(clock0, 400, None), (clock0, 400, None), (clock0, 400, None), (clock0, 2500, None)]"

definition uneven_texts :: "string list" where
  "uneven_texts = [replicate 504 CHR ''a'', ''bbbb'', ''cc'', ''dd'']"

text \<open>
  A parser with the limits of \<open>config.py\<close>, late in a day and in a window that began 61
  seconds before the clock reading.
\<close>

definition parser_late :: ai_parser where
  "parser_late =
     \<lparr>rpm_limit = 30, tpm_limit = 30000, window_seconds = 60, window_start = 0,
      window_requests = 5, window_tokens = 9000, tpd_limit = 500000, daily_tokens = 499000,
      max_tokens = 1024, client_available = True\<rparr>"


definition clock_30 :: clock where
  "clock_30 = \<lparr>t_now = 30, t_rollover = 30, t_resume = 30\<rparr>"

text \<open>A model that answers every prompt, and an empty trace.\<close>

definition env_ready :: environment where
  "env_ready = \<lparr>llm = (\<lambda>n prompt. Completion (Some ''Clean text.'')), clocks = (\<lambda>n. clock_30)\<rparr>"

definition trace0 :: trace where
  "trace0 = \<lparr>llm_calls = 0, budget_checks = 0\<rparr>"

definition parser_fresh :: ai_parser where
  "parser_fresh = parser_late\<lparr>daily_tokens := 0\<rparr>"

text \<open>A store of dimension 2 with empty collections, and four fragments.\<close>

definition store2 :: vector_store where
  "store2 = (VectorStore_init (\<lambda>name. []))\<lparr>dimensions := 2\<rparr>"

definition chunk_doc :: chunk where
  "chunk_doc = \<lparr>chunk_text = ''Sessions expire.'', source_type = ''text'',
                source_name = ''notes.txt'', metadata = Some []\<rparr>"

definition chunk_chat :: chunk where
  "chunk_chat = \<lparr>chunk_text = ''hello there'', source_type = ''chat'',
                 source_name = ''export.json'', metadata = Some [(''turn_index'', ''0'')]\<rparr>"

definition chunk_blank :: chunk where
  "chunk_blank = \<lparr>chunk_text = ''   '', source_type = ''text'',
                  source_name = ''notes.txt'', metadata = None\<rparr>"

definition v_ok :: "pyfloat list" where
  "v_ok = [Fin 1, Fin 0]"

definition v_short :: "pyfloat list" where
  "v_short = [Fin 1]"

definition v_nan :: "pyfloat list" where
  "v_nan = [Fin 1, NaN]"

section \<open>Verification\<close>

subsection \<open>Floats\<close>

lemma fl_fifth: "fl (1 / 5) = 3602879701896397 / 18014398509481984"
  by code_simp

lemma fl_minus_five: "fl (- 5) = - 5"
  by code_simp

lemma fl_0: "fl 0 = 0"
  by (simp add: fl_def)

lemma fl_pow2s: "fl 64 = 64" "fl 128 = 128" "fl (1 / 2) = 1 / 2" "fl 4 = 4" "fl 2 = 2"
  by code_simp+
lemma fl_hundredth: "fl (1 / 100) = 5764607523034235 / 576460752303423488"
  by code_simp

lemma fallback_floor_value: "fallback_floor = Fin (3602879701896397 / 18014398509481984)"
  by (simp add: fallback_floor_def float_lit_def fl_fifth)

lemma py_lt_not_ge: "py_lt a b \<Longrightarrow> \<not> py_ge a b"
  by (cases a; cases b) (auto simp: py_ge_def)

lemma py_ge_Fin: "py_ge (Fin a) (Fin b) = (b \<le> a)"
  by (auto simp: py_ge_def)

subsection \<open>The non-empty guarantee of \<open>search\<close>\<close>

lemma rerank_Nil: "rerank rt remote query [] = []"
  by (simp add: rerank_def)

lemma slice_to_3: "slice_to 3 xs = take 3 xs"
  by (simp add: slice_to_def)

text \<open>
  Claim C1. When the reranked list is not empty and every reranked score is below the
  threshold in force, \<open>search\<close> returns the first three reranked results: the result has
  length \<open>min 3 (length reranked)\<close> and is not empty.
\<close>

theorem search_nonempty_guarantee:
  assumes "reranked = rerank rt remote query results"
    and "reranked \<noteq> []"
    and "\<forall>r\<in>set reranked. py_lt (get_rerank_score r) (active_threshold rt reranked)"
  shows "search rt remote query results = take 3 reranked
       \<and> length (search rt remote query results) = min 3 (length reranked)
       \<and> search rt remote query results \<noteq> []"
proof -
  from assms(1,2) have ne: "results \<noteq> []"
    using rerank_Nil by auto
  from assms(3) have "filter_by_threshold (active_threshold rt reranked) reranked = []"
    by (auto simp: filter_by_threshold_def filter_empty_conv dest: py_lt_not_ge)
  with assms(2) have "search_filter rt reranked = take 3 reranked"
    by (simp add: search_filter_def Let_def slice_to_3)
  with ne assms(1) have eq: "search rt remote query results = take 3 reranked"
    by (simp add: search_def)
  from assms(2) show ?thesis unfolding eq by (cases reranked) auto
qed

lemma rerank_low_scores:
  "rerank (Retriever_init (Some ''key'')) low_scores ''explain auth.py'' [hit_a, hit_b, hit_c, hit_d]
     = low_reranked"
  by (simp add: rerank_def Retriever_init_def has_key_def low_scores_def py_index_def
      get_index_def get_relevance_def low_reranked_def)

lemma threshold_low_reranked:
  "active_threshold (Retriever_init (Some ''key'')) low_reranked = Fin (- 5)"
  by (simp add: active_threshold_def all_fallback_def low_reranked_def get_is_fallback_def
      hit_a_def hit_b_def hit_c_def hit_d_def Retriever_init_def RETRIEVAL_score_threshold_def
      float_lit_def fl_minus_five)

theorem search_nonempty_guarantee_witness:
  "low_reranked \<noteq> []
   \<and> list_all (\<lambda>r. py_lt (get_rerank_score r)
                 (active_threshold (Retriever_init (Some ''key'')) low_reranked)) low_reranked
   \<and> search (Retriever_init (Some ''key'')) low_scores ''explain auth.py''
        [hit_a, hit_b, hit_c, hit_d]
      = [hit_c\<lparr>rerank_score := Some (Fin (- 6))\<rparr>, hit_a\<lparr>rerank_score := Some (Fin (- 7))\<rparr>,
         hit_d\<lparr>rerank_score := Some (Fin (- 8))\<rparr>]"
proof -
  have ne: "low_reranked \<noteq> []" by (simp add: low_reranked_def)
  have low: "\<forall>r\<in>set low_reranked.
      py_lt (get_rerank_score r) (active_threshold (Retriever_init (Some ''key'')) low_reranked)"
    unfolding threshold_low_reranked by (simp add: low_reranked_def get_rerank_score_def)
  from search_nonempty_guarantee [OF rerank_low_scores [symmetric] ne low] ne low
  show ?thesis by (simp add: list_all_iff) (simp add: low_reranked_def)
qed

subsection \<open>The threshold chosen by \<open>search\<close>\<close>

lemma all_fallback_iff:
  "all_fallback reranked \<longleftrightarrow> (\<forall>r\<in>set reranked. rerank_score r \<noteq> None \<and> is_fallback r = Some True)"
  by (auto simp: all_fallback_def list_all_iff get_is_fallback_def split: option.splits)

lemma search_filter_eq:
  "search_filter rt reranked =
     (let kept = filter (\<lambda>r. py_ge (get_rerank_score r) (active_threshold rt reranked)) reranked
      in if kept = [] then take 3 reranked else kept)"
  by (cases reranked) (auto simp: search_filter_def filter_by_threshold_def Let_def slice_to_3)

text \<open>
  Claim C5 says that a mixed result set is filtered with the fallback floor. It is not: for
  a fallback-scored hit followed by a remotely scored one, \<open>search\<close> uses the configured
  floor \<open>-5\<close> and keeps both, where the floor \<open>0.2\<close> would drop the second.
\<close>

theorem threshold_branching_mixed_counterexample:
  "\<not> (active_threshold (Retriever_init (Some ''key'')) mixed_set = float_lit (1 / 5))
   \<and> search_filter (Retriever_init (Some ''key'')) mixed_set = mixed_set
   \<and> filter_by_threshold (float_lit (1 / 5)) mixed_set
       = [hit_a\<lparr>rerank_score := Some (Fin (1 / 2)), is_fallback := Some True\<rparr>]"
  by (simp add: active_threshold_def all_fallback_def mixed_set_def get_is_fallback_def
      hit_a_def hit_b_def Retriever_init_def RETRIEVAL_score_threshold_def float_lit_def
      fl_minus_five fl_fifth search_filter_def filter_by_threshold_def get_rerank_score_def
      py_ge_def)

text \<open>
  Claim C5, amended. A result set in which every item carries a fallback score is filtered
  with the fixed floor \<open>0.2\<close>, whatever the configured floor; a result set in which some
  item does not carry a fallback score is filtered with the configured floor. In both
  cases the first three results are returned when the filter leaves nothing.
\<close>

theorem threshold_branching:
  "((\<forall>r\<in>set reranked. rerank_score r \<noteq> None \<and> is_fallback r = Some True) \<longrightarrow>
      search_filter rt reranked =
        (let kept = filter (\<lambda>r. py_ge (get_rerank_score r) (float_lit (1 / 5))) reranked
         in if kept = [] then take 3 reranked else kept))
   \<and> ((\<exists>r\<in>set reranked. rerank_score r = None \<or> is_fallback r \<noteq> Some True) \<longrightarrow>
      search_filter rt reranked =
        (let kept = filter (\<lambda>r. py_ge (get_rerank_score r) (score_threshold rt)) reranked
         in if kept = [] then take 3 reranked else kept))"
  unfolding search_filter_eq active_threshold_def all_fallback_iff fallback_floor_def
  by auto

theorem threshold_branching_witness:
  "search_filter (Retriever_init (Some ''key'')) fallback_set
     = [hit_a\<lparr>rerank_score := Some (Fin (1 / 2)), is_fallback := Some True\<rparr>]
   \<and> search_filter (Retriever_init (Some ''key'')) mixed_set = mixed_set"
proof -
  have a: "\<forall>r\<in>set fallback_set. rerank_score r \<noteq> None \<and> is_fallback r = Some True"
    by (simp add: fallback_set_def)
  have b: "\<exists>r\<in>set mixed_set. rerank_score r = None \<or> is_fallback r \<noteq> Some True"
    by (simp add: mixed_set_def hit_b_def)
  from threshold_branching [of fallback_set "Retriever_init (Some ''key'')"] a
  have 1: "search_filter (Retriever_init (Some ''key'')) fallback_set
     = [hit_a\<lparr>rerank_score := Some (Fin (1 / 2)), is_fallback := Some True\<rparr>]"
    by (simp add: fallback_set_def float_lit_def fl_fifth get_rerank_score_def py_ge_def)
  from threshold_branching [of mixed_set "Retriever_init (Some ''key'')"] b
  have 2: "search_filter (Retriever_init (Some ''key'')) mixed_set = mixed_set"
    by (simp add: mixed_set_def float_lit_def fl_minus_five get_rerank_score_def py_ge_def
        Retriever_init_def RETRIEVAL_score_threshold_def hit_b_def)
  from 1 2 show ?thesis by simp
qed

subsection \<open>Fallback ranking is total\<close>

lemma clamp01_range: "\<exists>c. clamp01 x = Fin c \<and> 0 \<le> c \<and> c \<le> 1"
  by (cases x) (auto simp: clamp01_def py_max_def py_min_def py_gt_def)

lemma unit_score_mark_fallback: "unit_score (mark_fallback r)"
  using clamp01_range [of "get_score r"] by (auto simp: unit_score_def mark_fallback_def)

lemma is_fallback_mark_fallback: "is_fallback (mark_fallback r) = Some True"
  by (simp add: mark_fallback_def)

lemma length_insort_desc: "length (insort_desc x ys) = Suc (length ys)"
  by (induction ys) auto

lemma set_insort_desc: "set (insort_desc x ys) = insert x (set ys)"
  by (induction ys) auto

lemma length_sort_desc: "length (sort_desc xs) = length xs"
  by (induction xs) (auto simp: sort_desc_def length_insort_desc)

lemma set_sort_desc: "set (sort_desc xs) = set xs"
  by (induction xs) (auto simp: sort_desc_def set_insort_desc)

lemma unit_score_key: "unit_score r \<Longrightarrow> \<exists>c. get_rerank_score r = Fin c"
  by (auto simp: unit_score_def get_rerank_score_def split: option.splits pyfloat.splits)

lemma descending_insort_desc:
  assumes "unit_score x" and "\<forall>y\<in>set ys. unit_score y" and "descending ys"
  shows "descending (insort_desc x ys)"
  using assms
proof (induction ys)
  case Nil
  then show ?case by (simp add: descending_def)
next
  case (Cons y ys)
  from Cons.prems obtain a b where ab: "get_rerank_score x = Fin a" "get_rerank_score y = Fin b"
    using unit_score_key by (metis list.set_intros(1))
  show ?case
  proof (cases "a < b")
    case True
    from Cons have "descending (insort_desc x ys)" by (simp add: descending_def)
    moreover have "\<forall>z\<in>set (insort_desc x ys). py_ge (get_rerank_score y) (get_rerank_score z)"
      using Cons.prems(3) True ab by (auto simp: set_insort_desc descending_def py_ge_Fin)
    ultimately show ?thesis using True ab by (simp add: descending_def)
  next
    case False
    then have xy: "py_ge (get_rerank_score x) (get_rerank_score y)"
      using ab by (simp add: py_ge_Fin)
    have "py_ge (get_rerank_score x) (get_rerank_score z)" if "z \<in> set ys" for z
    proof -
      from that Cons.prems(2) obtain c where c: "get_rerank_score z = Fin c"
        using unit_score_key by (metis list.set_intros(2))
      from that Cons.prems(3) have "py_ge (get_rerank_score y) (get_rerank_score z)"
        by (simp add: descending_def)
      with xy ab c show ?thesis by (simp add: py_ge_Fin)
    qed
    with xy Cons.prems(3) False ab show ?thesis by (simp add: descending_def)
  qed
qed

lemma descending_sort_desc: "\<forall>y\<in>set xs. unit_score y \<Longrightarrow> descending (sort_desc xs)"
proof (induction xs)
  case Nil
  then show ?case by (simp add: sort_desc_def descending_def)
next
  case (Cons x xs)
  have "sort_desc (x # xs) = insort_desc x (sort_desc xs)" by (simp add: sort_desc_def)
  with Cons show ?case by (simp add: descending_insort_desc set_sort_desc)
qed

lemma slice_to_nonneg: "0 \<le> k \<Longrightarrow> slice_to k xs = take (nat k) xs"
  by (simp add: slice_to_def)

lemma fallback_rank_props:
  assumes "results \<noteq> []" and "1 \<le> top_k_rerank rt"
  shows "fallback_rank rt results \<noteq> []"
    and "length (fallback_rank rt results) = min (nat (top_k_rerank rt)) (length results)"
    and "set (fallback_rank rt results) = mark_fallback ` set (take (nat (top_k_rerank rt)) results)"
    and "descending (fallback_rank rt results)"
proof -
  let ?top = "map mark_fallback (take (nat (top_k_rerank rt)) results)"
  from assms(2) have fr: "fallback_rank rt results = sort_desc ?top"
    by (simp add: fallback_rank_def slice_to_nonneg)
  show len: "length (fallback_rank rt results) = min (nat (top_k_rerank rt)) (length results)"
    unfolding fr by (simp add: length_sort_desc)
  from assms len show "fallback_rank rt results \<noteq> []"
    by (cases results) auto
  show "set (fallback_rank rt results) = mark_fallback ` set (take (nat (top_k_rerank rt)) results)"
    unfolding fr by (simp add: set_sort_desc)
  show "descending (fallback_rank rt results)"
    unfolding fr by (rule descending_sort_desc) (auto simp: unit_score_mark_fallback)
qed

lemma rerank_unavailable:
  assumes "results \<noteq> []"
    and "reranker_unavailable rt (remote \<lparr>req_query = query, req_documents = map document_of results,
           req_top_k = top_k_rerank rt\<rparr>)"
  shows "rerank rt remote query results = fallback_rank rt results"
  using assms by (auto simp: rerank_def reranker_unavailable_def split: http_result.splits)

lemma clamp01_clamp_unit: "clamp01 x = clamp_unit x"
  by (cases x) (auto simp: clamp01_def clamp_unit_def py_max_def py_min_def py_gt_def)

lemma get_score_similarity: "get_score c = similarity c"
  by (simp add: get_score_def similarity_def float_lit_def fl_pow2s split: option.splits)

lemma mark_fallback_spec:
  "mark_fallback c = c\<lparr>rerank_score := Some (clamp_unit (similarity c)), is_fallback := Some True\<rparr>"
  by (simp add: mark_fallback_def clamp01_clamp_unit get_score_similarity)

lemma count_list_insort_desc: "count_list (insort_desc x ys) z = count_list (x # ys) z"
  by (induction ys) auto

lemma count_list_sort_desc: "count_list (sort_desc xs) z = count_list xs z"
  by (induction xs) (simp_all add: sort_desc_def count_list_insort_desc)

text \<open>
  Claim C2. For a non-empty candidate list and a positive \<open>top_k_rerank\<close> (10 in the
  configuration), when the reranker has no key, times out, fails, answers with a status
  other than 200 or with an empty data list, \<open>rerank\<close> returns a non-empty list of at most
  \<open>top_k_rerank\<close> results: exactly the first \<open>top_k_rerank\<close> candidates, each once, each
  flagged as fallback and carrying as rerank score its similarity clamped into \<open>[0, 1]\<close>
  (above 1 gives 1, below 0 gives 0), in descending order of that score. The model of
  \<open>rerank\<close> has no error result: every exception of the source is caught inside it.
\<close>

theorem rerank_fallback_total:
  assumes "results \<noteq> []" and "1 \<le> top_k_rerank rt"
    and "reranker_unavailable rt (remote \<lparr>req_query = query, req_documents = map document_of results,
           req_top_k = top_k_rerank rt\<rparr>)"
  shows "rerank rt remote query results \<noteq> []
       \<and> int (length (rerank rt remote query results)) \<le> top_k_rerank rt
       \<and> length (rerank rt remote query results) = min (nat (top_k_rerank rt)) (length results)
       \<and> (\<forall>r. count_list (rerank rt remote query results) r
              = count_list
                  (map (\<lambda>c. c\<lparr>rerank_score := Some (clamp_unit (similarity c)),
                               is_fallback := Some True\<rparr>)
                     (take (nat (top_k_rerank rt)) results)) r)
       \<and> set (rerank rt remote query results)
           = (\<lambda>c. c\<lparr>rerank_score := Some (clamp_unit (similarity c)), is_fallback := Some True\<rparr>)
               ` set (take (nat (top_k_rerank rt)) results)
       \<and> (\<forall>r\<in>set (rerank rt remote query results). is_fallback r = Some True \<and> unit_score r)
       \<and> descending (rerank rt remote query results)"
proof -
  have eq: "rerank rt remote query results = fallback_rank rt results"
    using assms(1,3) by (rule rerank_unavailable)
  have mf: "mark_fallback
      = (\<lambda>c. c\<lparr>rerank_score := Some (clamp_unit (similarity c)), is_fallback := Some True\<rparr>)"
    by (rule ext) (rule mark_fallback_spec)
  note p = fallback_rank_props [OF assms(1,2)]
  have "\<forall>r\<in>set (fallback_rank rt results). is_fallback r = Some True \<and> unit_score r"
    unfolding p(3) by (auto simp: unit_score_mark_fallback is_fallback_mark_fallback)
  moreover from p(2) assms(2) have "int (length (fallback_rank rt results)) \<le> top_k_rerank rt"
    by simp
  moreover have "\<forall>r. count_list (fallback_rank rt results) r
      = count_list (map mark_fallback (take (nat (top_k_rerank rt)) results)) r"
    using assms(2) by (simp add: fallback_rank_def slice_to_nonneg count_list_sort_desc)
  ultimately show ?thesis
    unfolding eq using p by (simp add: mf)
qed

theorem rerank_fallback_total_witness:
  "[hit_nan, hit_low, hit_high, hit_b] \<noteq> []
   \<and> 1 \<le> top_k_rerank retriever3
   \<and> reranker_unavailable retriever3
         (service_unavailable \<lparr>req_query = ''explain auth.py'',
            req_documents = map document_of [hit_nan, hit_low, hit_high, hit_b],
            req_top_k = top_k_rerank retriever3\<rparr>)
   \<and> rerank retriever3 service_unavailable ''explain auth.py'' [hit_nan, hit_low, hit_high, hit_b]
       = [hit_nan\<lparr>rerank_score := Some (Fin 1), is_fallback := Some True\<rparr>,
          hit_high\<lparr>rerank_score := Some (Fin 1), is_fallback := Some True\<rparr>,
          hit_low\<lparr>rerank_score := Some (Fin 0), is_fallback := Some True\<rparr>]
   \<and> length (rerank retriever3 service_unavailable ''explain auth.py''
         [hit_nan, hit_low, hit_high, hit_b]) = 3
   \<and> descending (rerank retriever3 service_unavailable ''explain auth.py''
         [hit_nan, hit_low, hit_high, hit_b])"
proof -
  have n: "[hit_nan, hit_low, hit_high, hit_b] \<noteq> []" by simp
  have k: "1 \<le> top_k_rerank retriever3"
    by (simp add: retriever3_def)
  have u: "reranker_unavailable retriever3
         (service_unavailable \<lparr>req_query = ''explain auth.py'',
            req_documents = map document_of [hit_nan, hit_low, hit_high, hit_b],
            req_top_k = top_k_rerank retriever3\<rparr>)"
    by (simp add: reranker_unavailable_def service_unavailable_def)
  have v: "rerank retriever3 service_unavailable ''explain auth.py'' [hit_nan, hit_low, hit_high, hit_b]
       = [hit_nan\<lparr>rerank_score := Some (Fin 1), is_fallback := Some True\<rparr>,
          hit_high\<lparr>rerank_score := Some (Fin 1), is_fallback := Some True\<rparr>,
          hit_low\<lparr>rerank_score := Some (Fin 0), is_fallback := Some True\<rparr>]"
    by (simp add: rerank_def has_key_def retriever3_def Retriever_init_def service_unavailable_def
        fallback_rank_def slice_to_def sort_desc_def mark_fallback_def
        get_score_def hit_nan_def hit_low_def hit_high_def clamp01_def py_min_def py_max_def
        py_gt_def get_rerank_score_def)
  note r = rerank_fallback_total
    [of "[hit_nan, hit_low, hit_high, hit_b]" retriever3 service_unavailable "''explain auth.py''",
     OF n k u]
  from r have "length (rerank retriever3 service_unavailable ''explain auth.py''
         [hit_nan, hit_low, hit_high, hit_b]) = 3"
    by (simp add: retriever3_def)
  moreover from r have "descending (rerank retriever3 service_unavailable ''explain auth.py''
         [hit_nan, hit_low, hit_high, hit_b])"
    by simp
  ultimately show ?thesis using n k u v by simp
qed

subsection \<open>Mapping the reranker's answer back\<close>

lemma py_index_in_range:
  "0 \<le> i \<Longrightarrow> i < int (length xs) \<Longrightarrow> py_index xs i = Some (xs ! nat i)"
  by (simp add: py_index_def)

text \<open>
  With no negative index in the answer, the loop maps each pair whose index is below
  \<open>len(results)\<close> onto the candidate at that position and discards the others.
\<close>

lemma map_items_nonnegative:
  assumes "\<forall>it\<in>set items. 0 \<le> get_index it"
  shows "map_items results items =
     Some (map (\<lambda>it. (results ! nat (get_index it))\<lparr>rerank_score := Some (get_relevance it)\<rparr>)
            (filter (\<lambda>it. get_index it < int (length results)) items))"
  using assms by (induction items) (simp_all add: py_index_in_range)

text \<open>
  Claim C10 on the input where it fails. The reranker answers with the pair
  \<open>(-1, 0.5)\<close> for two candidates. The source tests only \<open>index < len(results)\<close>, so the
  pair is not discarded: \<open>results[-1]\<close> is the last candidate, which is returned with
  that score.
\<close>

theorem rerank_negative_index:
  "rerank (Retriever_init (Some ''key'')) negative_index ''explain auth.py'' [hit_a, hit_b]
     = [hit_b\<lparr>rerank_score := Some (Fin (1 / 2))\<rparr>]"
  by (simp add: rerank_def Retriever_init_def has_key_def negative_index_def py_index_def
      get_index_def get_relevance_def)

subsection \<open>The window counters of the embedder\<close>

lemma roll_window_limits [simp]:
  "rpm_limit (roll_window ck b) = rpm_limit b" "tpm_limit (roll_window ck b) = tpm_limit b"
  by (simp_all add: roll_window_def Let_def)

lemma wait_for_budget_limits [simp]:
  "rpm_limit (wait_for_budget ck rc tc e) = rpm_limit e"
  "tpm_limit (wait_for_budget ck rc tc e) = tpm_limit e"
  by (simp_all add: wait_for_budget_def reset_window_def Let_def)

lemma reserve_budget_limits [simp]:
  "rpm_limit (reserve_budget ck est e) = rpm_limit e"
  "tpm_limit (reserve_budget ck est e) = tpm_limit e"
  by (simp_all add: reserve_budget_def Let_def)

lemma reconcile_limits [simp]:
  "rpm_limit (reconcile u est e) = rpm_limit e" "tpm_limit (reconcile u est e) = tpm_limit e"
  by (simp_all add: reconcile_def split: option.splits)

lemma reserve_budget_step:
  assumes "1 \<le> rpm_limit e"
  shows "window_requests (reserve_budget ck est e) \<le> rpm_limit e"
    and "est \<le> tpm_limit e \<Longrightarrow> window_tokens (reserve_budget ck est e) \<le> tpm_limit e"
    and "0 \<le> window_tokens e \<Longrightarrow> tpm_limit e < est \<Longrightarrow>
           window_requests (reserve_budget ck est e) = 1
         \<and> window_tokens (reserve_budget ck est e) = est
         \<and> window_start (reserve_budget ck est e) = t_resume ck"
  using assms
  by (auto simp: reserve_budget_def wait_for_budget_def reset_window_def roll_window_def Let_def)

lemma reserve_reconcile_nonneg:
  assumes "0 \<le> window_tokens e" and "0 \<le> est"
  shows "0 \<le> window_tokens (reconcile usage est (reserve_budget ck est e))"
  using assms
  by (auto simp: reconcile_def reserve_budget_def wait_for_budget_def reset_window_def
      roll_window_def Let_def split: option.splits)

lemma select_batch_single:
  "length (py_slice i (i + batch_size e) texts) \<le> 1 \<Longrightarrow>
   select_batch e texts i
     = (py_slice i (i + batch_size e) texts, estimate_tokens e (py_slice i (i + batch_size e) texts))"
  by (simp add: select_batch_def Let_def)

lemma reservations_bounds:
  assumes "1 \<le> rpm_limit e"
    and "nonneg \<longrightarrow> 0 \<le> window_tokens e \<and> (\<forall>(c, t, u)\<in>set calls. 0 \<le> t)"
  shows "list_all2
           (\<lambda>(ck, estimated_tokens, prompt_tokens) s.
              window_requests s \<le> rpm_limit e
            \<and> (estimated_tokens \<le> tpm_limit e \<longrightarrow> window_tokens s \<le> tpm_limit e)
            \<and> (nonneg \<and> tpm_limit e < estimated_tokens \<longrightarrow>
                 window_requests s = 1 \<and> window_tokens s = estimated_tokens
                 \<and> window_start s = t_resume ck))
           calls (reservations e calls)"
  using assms
proof (induction calls arbitrary: e)
  case Nil
  then show ?case by simp
next
  case (Cons call calls)
  obtain ck est usage where call: "call = (ck, est, usage)" by (cases call)
  let ?e1 = "reserve_budget ck est e"
  let ?e2 = "reconcile usage est ?e1"
  note st = reserve_budget_step [OF Cons.prems(1), where ck = ck and est = est]
  have "1 \<le> rpm_limit ?e2" using Cons.prems(1) by simp
  moreover have "nonneg \<longrightarrow> 0 \<le> window_tokens ?e2 \<and> (\<forall>(c, t, u)\<in>set calls. 0 \<le> t)"
    using Cons.prems(2) call by (auto intro: reserve_reconcile_nonneg)
  ultimately have "list_all2
           (\<lambda>(ck, estimated_tokens, prompt_tokens) s.
              window_requests s \<le> rpm_limit ?e2
            \<and> (estimated_tokens \<le> tpm_limit ?e2 \<longrightarrow> window_tokens s \<le> tpm_limit ?e2)
            \<and> (nonneg \<and> tpm_limit ?e2 < estimated_tokens \<longrightarrow>
                 window_requests s = 1 \<and> window_tokens s = estimated_tokens
                 \<and> window_start s = t_resume ck))
           calls (reservations ?e2 calls)"
    by (rule Cons.IH)
  then have tail: "list_all2
           (\<lambda>(ck, estimated_tokens, prompt_tokens) s.
              window_requests s \<le> rpm_limit e
            \<and> (estimated_tokens \<le> tpm_limit e \<longrightarrow> window_tokens s \<le> tpm_limit e)
            \<and> (nonneg \<and> tpm_limit e < estimated_tokens \<longrightarrow>
                 window_requests s = 1 \<and> window_tokens s = estimated_tokens
                 \<and> window_start s = t_resume ck))
           calls (reservations ?e2 calls)"
    by simp
  have head: "window_requests ?e1 \<le> rpm_limit e
            \<and> (est \<le> tpm_limit e \<longrightarrow> window_tokens ?e1 \<le> tpm_limit e)
            \<and> (nonneg \<and> tpm_limit e < est \<longrightarrow>
                 window_requests ?e1 = 1 \<and> window_tokens ?e1 = est
                 \<and> window_start ?e1 = t_resume ck)"
    using st Cons.prems(2) by blast
  from head tail show ?case unfolding call by (simp add: Let_def)
qed

text \<open>
  Claim C4, amended. With an RPM limit of at least 1, for any sequence of reservations
  from any state, whatever usage is reconciled in between, just after each reservation
  \<open>window_requests\<close> does not exceed the RPM limit, and \<open>window_tokens\<close> does not exceed
  the TPM limit when the estimated cost of the reservation is at most the TPM limit. A
  reservation whose estimated cost alone exceeds the TPM limit, as that of a single item,
  which is never shrunk, is admitted into a fresh window: \<open>window_requests\<close> is 1 and
  \<open>window_tokens\<close> is its cost. (For this last part the token counter starts
  non-negative and the estimates are non-negative, as \<open>estimate_tokens\<close> makes them.)
\<close>

theorem reserve_within_limits:
  assumes "1 \<le> rpm_limit e"
  shows "list_all2
           (\<lambda>(ck, estimated_tokens, prompt_tokens) s.
              window_requests s \<le> rpm_limit e
            \<and> (estimated_tokens \<le> tpm_limit e \<longrightarrow> window_tokens s \<le> tpm_limit e)
            \<and> ((0 \<le> window_tokens e \<and> (\<forall>(c, t, u)\<in>set calls. 0 \<le> t))
                 \<and> tpm_limit e < estimated_tokens \<longrightarrow>
                 window_requests s = 1 \<and> window_tokens s = estimated_tokens
                 \<and> window_start s = t_resume ck))
           calls (reservations e calls)"
  using assms by (intro reservations_bounds) simp_all

theorem reserve_within_limits_witness:
  "1 \<le> rpm_limit (embedder0 2 1000 50)
   \<and> 0 \<le> window_tokens (embedder0 2 1000 50)
   \<and> list_all (\<lambda>(c, t, u). 0 \<le> t) sample_calls
   \<and> map (\<lambda>s. (window_requests s, window_tokens s)) (reservations (embedder0 2 1000 50) sample_calls)
       = [(1, 400), (2, 800), (1, 400), (1, 2500)]
   \<and> list_all2
         (\<lambda>(ck, estimated_tokens, prompt_tokens) s.
            window_requests s \<le> 2
          \<and> (if estimated_tokens \<le> 1000 then window_tokens s \<le> 1000
              else window_requests s = 1 \<and> window_tokens s = estimated_tokens))
         sample_calls (reservations (embedder0 2 1000 50) sample_calls)"
proof -
  have a: "1 \<le> rpm_limit (embedder0 2 1000 50)" by (simp add: embedder0_def)
  have b: "0 \<le> window_tokens (embedder0 2 1000 50)" by (simp add: embedder0_def)
  have c: "list_all (\<lambda>(c, t, u). 0 \<le> t) sample_calls" by (simp add: sample_calls_def)
  then have c': "\<forall>(c, t, u)\<in>set sample_calls. 0 \<le> t" by (simp add: list_all_iff)
  have d: "map (\<lambda>s. (window_requests s, window_tokens s))
        (reservations (embedder0 2 1000 50) sample_calls)
      = [(1, 400), (2, 800), (1, 400), (1, 2500)]"
    by (simp add: sample_calls_def embedder0_def clock0_def reserve_budget_def wait_for_budget_def
        roll_window_def reset_window_def reconcile_def fl_0 Let_def)
  have l: "rpm_limit (embedder0 2 1000 50) = 2" "tpm_limit (embedder0 2 1000 50) = 1000"
    by (simp_all add: embedder0_def)
  have "list_all2
         (\<lambda>(ck, estimated_tokens, prompt_tokens) s.
            window_requests s \<le> 2
          \<and> (if estimated_tokens \<le> 1000 then window_tokens s \<le> 1000
              else window_requests s = 1 \<and> window_tokens s = estimated_tokens))
         sample_calls (reservations (embedder0 2 1000 50) sample_calls)"
  proof (rule list_all2_mono [OF reserve_within_limits [OF a, of sample_calls]])
    fix call s
    assume "(case call of
          (ck, estimated_tokens, prompt_tokens) \<Rightarrow> \<lambda>s.
            window_requests s \<le> rpm_limit (embedder0 2 1000 50)
          \<and> (estimated_tokens \<le> tpm_limit (embedder0 2 1000 50) \<longrightarrow>
               window_tokens s \<le> tpm_limit (embedder0 2 1000 50))
          \<and> ((0 \<le> window_tokens (embedder0 2 1000 50)
                \<and> (\<forall>(c, t, u)\<in>set sample_calls. 0 \<le> t))
               \<and> tpm_limit (embedder0 2 1000 50) < estimated_tokens \<longrightarrow>
               window_requests s = 1 \<and> window_tokens s = estimated_tokens
               \<and> window_start s = t_resume ck)) s"
    with b c' show "(case call of
          (ck, estimated_tokens, prompt_tokens) \<Rightarrow> \<lambda>s.
            window_requests s \<le> 2
          \<and> (if estimated_tokens \<le> 1000 then window_tokens s \<le> 1000
              else window_requests s = 1 \<and> window_tokens s = estimated_tokens)) s"
      unfolding l by (cases call) auto
  qed
  with a b c d show ?thesis by simp
qed

text \<open>
  Claim C4 includes a single-item batch whose cost alone exceeds the TPM limit. There it
  fails: \<open>embed_documents\<close> on one text of 10000 characters with a TPM limit of 100 and
  batch size 1 keeps the batch (one item is never shrunk), waits, resets the window, and
  reserves 2500 tokens.
\<close>

theorem reserve_oversized_single_counterexample:
  "select_batch (embedder0 100 100 1) [replicate 10000 CHR ''a''] 0 = ([replicate 10000 CHR ''a''], 2500)
   \<and> window_tokens (snd (embed_documents_reserve clock0 [replicate 10000 CHR ''a''] 0 (embedder0 100 100 1)))
       = 2500
   \<and> tpm_limit (snd (embed_documents_reserve clock0 [replicate 10000 CHR ''a''] 0 (embedder0 100 100 1)))
       = 100"
  by (simp add: embed_documents_reserve_def select_batch_def py_slice_def clip_index_def
      embedder0_def estimate_tokens_def clock0_def reserve_budget_def wait_for_budget_def
      roll_window_def reset_window_def fl_0 Let_def)

subsection \<open>The batch shrink of \<open>embed_documents\<close>\<close>

lemma shrink_size_ge_1: "1 \<le> shrink_size tpm len est"
  by (simp add: shrink_size_def)

lemma py_slice_from:
  assumes "0 \<le> i" and "0 \<le> n"
  shows "py_slice i (i + n) xs = take (nat n) (drop (nat i) xs)"
proof (cases "nat i \<le> length xs")
  case True
  with assms show ?thesis
    by (auto simp: py_slice_def clip_index_def Let_def min_def nat_add_distrib
        intro!: take_all)
next
  case False
  with assms show ?thesis
    by (simp add: py_slice_def clip_index_def Let_def min_def)
qed

text \<open>
  Each rounding moves a non-zero value by at most the fraction \<open>2^-53\<close> of it.
\<close>

lemma pow2_powi: "pow2 e = 2 powi e"
  by (simp add: pow2_def power_int_def inverse_eq_divide power_one_over)

lemma pow2_pos: "0 < pow2 e"
  by (simp add: pow2_powi)

lemma pow2_diff: "pow2 (a - b) = pow2 a / pow2 b"
  by (simp add: pow2_powi power_int_diff)

lemma pow2_nat: "0 \<le> k \<Longrightarrow> pow2 k = 2 ^ nat k"
  by (simp add: pow2_def)

lemma binexp_le:
  assumes "0 < a"
  shows "pow2 (binexp a) \<le> a"
proof -
  obtain n d where q: "quotient_of a = (n, d)" by (cases "quotient_of a")
  then have d: "0 < d" and a: "a = of_int n / of_int d"
    by (rule quotient_of_denom_pos, rule quotient_of_div)
  with assms have n: "0 < n" by (simp add: zero_less_divide_iff)
  let ?e0 = "bitlen n - bitlen d"
  show ?thesis
  proof (cases "pow2 ?e0 \<le> a")
    case True
    with q show ?thesis by (simp add: binexp_def)
  next
    case False
    with q have e: "binexp a = ?e0 - 1" by (simp add: binexp_def)
    from bitlen_bounds [OF n] have "(2::int) ^ nat (bitlen n - 1) \<le> n" by simp
    then have "(of_int ((2::int) ^ nat (bitlen n - 1)) :: rat) \<le> of_int n"
      by (simp only: of_int_le_iff)
    then have nb: "(2::rat) ^ nat (bitlen n - 1) \<le> of_int n" by simp
    from bitlen_bounds [OF d] have "d < (2::int) ^ nat (bitlen d)" by simp
    then have "(of_int d :: rat) < of_int ((2::int) ^ nat (bitlen d))"
      by (simp only: of_int_less_iff)
    then have db: "(of_int d :: rat) < 2 ^ nat (bitlen d)" by simp
    have b1: "1 \<le> bitlen n" using n by (auto simp: bitlen_alt_def)
    have "pow2 (?e0 - 1) = pow2 (bitlen n - 1) / pow2 (bitlen d)"
      using pow2_diff [of "bitlen n - 1" "bitlen d"] by (simp add: algebra_simps)
    also have "\<dots> = 2 ^ nat (bitlen n - 1) / 2 ^ nat (bitlen d)"
      using b1 bitlen_nonneg [of d] by (simp add: pow2_nat)
    also have "\<dots> \<le> of_int n / 2 ^ nat (bitlen d)"
      using nb by (simp add: divide_right_mono)
    also have "\<dots> \<le> of_int n / of_int d"
      using db d n by (intro divide_left_mono) (auto intro: mult_pos_pos)
    finally show ?thesis using e a by simp
  qed
qed

lemma round_even_error: "\<bar>of_int (round_even t) - t\<bar> \<le> 1 / 2"
proof -
  have "of_int \<lfloor>t\<rfloor> \<le> t" "t < of_int \<lfloor>t\<rfloor> + 1" by linarith+
  then show ?thesis
    by (auto simp: round_even_def Let_def abs_le_iff)
qed

lemma fl_error:
  assumes "x \<noteq> 0"
  shows "\<bar>fl x - x\<bar> \<le> \<bar>x\<bar> / 2 ^ 53"
proof -
  let ?a = "\<bar>x\<bar>"
  let ?u = "pow2 (binexp ?a - 52)"
  let ?m = "round_even (?a / ?u)"
  from assms have a: "0 < ?a" by simp
  have u: "0 < ?u" by (rule pow2_pos)
  have ue: "?u = pow2 (binexp ?a) / 2 ^ 52"
    using pow2_diff [of "binexp ?a" 52] by (simp add: pow2_nat)
  have fl: "fl x = sgn x * of_int ?m * ?u"
    using assms by (simp add: fl_def Let_def)
  have "fl x - x = sgn x * (of_int ?m * ?u - ?a)"
    unfolding fl by (simp add: algebra_simps sgn_mult_abs flip: abs_sgn) (metis mult.commute sgn_mult_abs)
  then have "\<bar>fl x - x\<bar> = \<bar>of_int ?m * ?u - ?a\<bar>"
    using assms by (simp add: abs_mult abs_sgn_eq)
  also have "of_int ?m * ?u - ?a = (of_int ?m - ?a / ?u) * ?u"
    using u by (simp add: algebra_simps)
  also have "\<bar>\<dots>\<bar> = \<bar>of_int ?m - ?a / ?u\<bar> * ?u"
    using u by (simp add: abs_mult)
  also have "\<dots> \<le> 1 / 2 * ?u"
    using round_even_error [of "?a / ?u"] u by (intro mult_right_mono) auto
  also have "\<dots> = pow2 (binexp ?a) / 2 ^ 53"
    unfolding ue by simp
  also have "\<dots> \<le> ?a / 2 ^ 53"
    using binexp_le [OF a] by (simp add: divide_right_mono)
  finally show ?thesis .
qed

lemma fl_pos_bounds:
  assumes "0 < x"
  shows "x * (1 - 1 / 2 ^ 53) \<le> fl x" and "fl x \<le> x * (1 + 1 / 2 ^ 53)"
proof -
  define d where "d = x / 2 ^ 53"
  from fl_error [of x] assms have e: "\<bar>fl x - x\<bar> \<le> d" by (simp add: d_def)
  have eq: "x * (1 - 1 / 2 ^ 53) = x - d" "x * (1 + 1 / 2 ^ 53) = x + d"
    by (simp_all add: algebra_simps d_def)
  from e show "x * (1 - 1 / 2 ^ 53) \<le> fl x" unfolding eq by linarith
  from e show "fl x \<le> x * (1 + 1 / 2 ^ 53)" unfolding eq by linarith
qed

lemma fl_nonpos: "x \<le> 0 \<Longrightarrow> fl x \<le> 0"
proof (cases "x = 0")
  case True
  then show ?thesis by (simp add: fl_def)
next
  case False
  assume neg: "x \<le> 0"
  define d where "d = - x / 2 ^ 53"
  from False neg fl_error [of x] have e: "\<bar>fl x - x\<bar> \<le> d" by (simp add: d_def)
  have "d \<le> - x" using neg by (simp add: d_def field_simps)
  with e show ?thesis by linarith
qed

lemma fl_pos: "0 < x \<Longrightarrow> 0 < fl x"
proof -
  assume x: "0 < x"
  have "0 < x * (1 - 1 / 2 ^ 53)" using x by (intro mult_pos_pos) simp_all
  with fl_pos_bounds(1) [OF x] show ?thesis by linarith
qed

text \<open>The unit roundoff of binary64, and the factors four roundings can add up to.\<close>

lemma roundoff_factors:
  "(1 + 1 / 2 ^ 53) * (1 + 1 / 2 ^ 53) * ((1 + 1 / 2 ^ 53) * (1 + 1 / 2 ^ 53) / (1 - 1 / 2 ^ 53))
     \<le> (1 + 1 / 2 ^ 50 :: rat)"
  "(1 - 1 / 2 ^ 50 :: rat)
     \<le> (1 - 1 / 2 ^ 53) * (1 - 1 / 2 ^ 53) * ((1 - 1 / 2 ^ 53) * (1 - 1 / 2 ^ 53) / (1 + 1 / 2 ^ 53))"
  by simp_all

lemma max_times: "0 \<le> k \<Longrightarrow> max a b * k = max (a * k) (b * k)" for a b k :: rat
proof (cases "a \<le> b")
  case True
  assume "0 \<le> k"
  with True have "a * k \<le> b * k" by (rule mult_right_mono)
  with True show ?thesis by (simp add: max_absorb2)
next
  case False
  assume "0 \<le> k"
  with False have "b * k \<le> a * k" by (intro mult_right_mono) simp_all
  with False show ?thesis by (simp add: max_absorb1)
qed

lemma shrink_ratio_bounds:
  fixes tpm est :: int
  assumes est: "0 < est"
  defines "u \<equiv> (1 / 2 ^ 53 :: rat)"
  defines "r \<equiv> max (1 / 100) (of_int tpm / of_int est :: rat)"
  shows "r * ((1 - u) * (1 - u) / (1 + u)) \<le> shrink_ratio tpm est"
    and "shrink_ratio tpm est \<le> r * ((1 + u) * (1 + u) / (1 - u))"
    and "0 < shrink_ratio tpm est"
proof -
  have u: "0 < u" "u < 1" by (simp_all add: u_def)
  let ?lo = "(1 - u) * (1 - u) / (1 + u)"
  let ?hi = "(1 + u) * (1 + u) / (1 - u)"
  have lo: "0 < ?lo" "?lo \<le> 1 - u"
  proof -
    show "0 < ?lo" using u by (intro divide_pos_pos mult_pos_pos) simp_all
    have "(1 - u) * (1 - u) \<le> (1 - u) * (1 + u)"
      using u by (intro mult_left_mono) simp_all
    then show "?lo \<le> 1 - u" using u by (simp add: pos_divide_le_eq)
  qed
  have hi: "1 + u \<le> ?hi" using u by (simp add: field_simps)
  define c where "c = fl (1 / 100)"
  define q1 where "q1 = fl (fl (of_int tpm) / fl (of_int est))"
  have sr: "shrink_ratio tpm est = (if c < q1 then q1 else c)"
    by (simp add: shrink_ratio_def c_def q1_def Let_def)
  have c: "1 / 100 * (1 - u) \<le> c" "c \<le> 1 / 100 * (1 + u)" "0 < c"
    using fl_pos_bounds [of "1 / 100"] fl_pos [of "1 / 100"] by (simp_all add: c_def u_def)
  have E: "(0::rat) < of_int est" using est by simp
  define b where "b = fl (of_int est)"
  have b: "of_int est * (1 - u) \<le> b" "b \<le> of_int est * (1 + u)" "0 < b"
    using fl_pos_bounds [OF E] fl_pos [OF E] by (simp_all add: b_def u_def)
  show "0 < shrink_ratio tpm est" using c(3) by (simp add: sr)
  show "r * ?lo \<le> shrink_ratio tpm est" "shrink_ratio tpm est \<le> r * ?hi"
  proof -
    consider (pos) "0 < tpm" | (nonpos) "tpm \<le> 0" by linarith
    then have "r * ?lo \<le> shrink_ratio tpm est \<and> shrink_ratio tpm est \<le> r * ?hi"
    proof cases
      case nonpos
      then have "fl (of_int tpm) \<le> 0" by (intro fl_nonpos) simp
      with b(3) have "fl (of_int tpm) / b \<le> 0" by (simp add: divide_le_0_iff)
      then have "q1 \<le> 0" unfolding q1_def b_def by (rule fl_nonpos)
      with c(3) have s: "shrink_ratio tpm est = c" by (simp add: sr)
      from nonpos E have "(of_int tpm / of_int est :: rat) \<le> 0" by (simp add: divide_le_0_iff)
      then have "(of_int tpm / of_int est :: rat) \<le> 1 / 100" by linarith
      then have r: "r = 1 / 100" unfolding r_def by (rule max_absorb1)
      have "1 / 100 * ?lo \<le> 1 / 100 * (1 - u)" using lo(2) by (intro mult_left_mono) simp_all
      moreover have "1 / 100 * (1 + u) \<le> 1 / 100 * ?hi" using hi by (intro mult_left_mono) simp_all
      ultimately show ?thesis using c unfolding s r by linarith
    next
      case pos
      then have T: "(0::rat) < of_int tpm" by simp
      define a where "a = fl (of_int tpm)"
      have a: "of_int tpm * (1 - u) \<le> a" "a \<le> of_int tpm * (1 + u)" "0 < a"
        using fl_pos_bounds [OF T] fl_pos [OF T] by (simp_all add: a_def u_def)
      have ab: "0 < a / b" using a(3) b(3) by simp
      have up: "a / b \<le> of_int tpm * (1 + u) / (of_int est * (1 - u))"
        using a b E u by (intro frac_le) auto
      have dn: "of_int tpm * (1 - u) / (of_int est * (1 + u)) \<le> a / b"
        using a b E T u by (intro frac_le) auto
      have q1: "a / b * (1 - u) \<le> q1" "q1 \<le> a / b * (1 + u)"
        using fl_pos_bounds [OF ab] by (simp_all add: q1_def a_def b_def u_def)
      have "q1 \<le> of_int tpm * (1 + u) / (of_int est * (1 - u)) * (1 + u)"
        using q1(2) up u by (meson add_pos_pos less_eq_rat_def mult_right_mono order_trans zero_less_one)
      also have "\<dots> = of_int tpm / of_int est * ?hi"
        using u E by (simp add: field_simps)
      finally have q1_hi: "q1 \<le> of_int tpm / of_int est * ?hi" .
      have "of_int tpm / of_int est * ?lo = of_int tpm * (1 - u) / (of_int est * (1 + u)) * (1 - u)"
        using u E by (simp add: field_simps)
      also have "\<dots> \<le> a / b * (1 - u)"
        using dn u by (intro mult_right_mono) auto
      also have "\<dots> \<le> q1" by (rule q1(1))
      finally have q1_lo: "of_int tpm / of_int est * ?lo \<le> q1" .
      have c_hi: "c \<le> 1 / 100 * ?hi"
      proof -
        have "1 / 100 * (1 + u) \<le> 1 / 100 * ?hi" using hi by (intro mult_left_mono) simp_all
        with c(2) show ?thesis by linarith
      qed
      have c_lo: "1 / 100 * ?lo \<le> c"
      proof -
        have "1 / 100 * ?lo \<le> 1 / 100 * (1 - u)" using lo(2) by (intro mult_left_mono) simp_all
        with c(1) show ?thesis by linarith
      qed
      have hi0: "0 \<le> ?hi" using hi u by linarith
      have r_hi: "r * ?hi = max (1 / 100 * ?hi) (of_int tpm / of_int est * ?hi)"
        unfolding r_def using hi0 by (rule max_times)
      have r_lo: "r * ?lo = max (1 / 100 * ?lo) (of_int tpm / of_int est * ?lo)"
        unfolding r_def using lo(1) by (intro max_times) simp
      show ?thesis
        unfolding sr r_hi r_lo using q1_hi q1_lo c_hi c_lo by (auto simp: max_def)
    qed
    then show "r * ?lo \<le> shrink_ratio tpm est" "shrink_ratio tpm est \<le> r * ?hi" by simp_all
  qed
qed

text \<open>
  The new size against the exact proportion \<open>len * max(0.01, TPM / estimate)\<close>: the four
  roundings move the product by less than the fraction \<open>2^-50\<close> of it. For an estimate
  of at most \<open>10^15\<close> tokens the new size is below the old one.
\<close>

lemma shrink_size_bounds:
  fixes tpm est :: int and len :: nat
  assumes est: "0 < est" and len: "0 < len"
  defines "r \<equiv> max (1 / 100) (of_int tpm / of_int est :: rat)"
  shows "max 1 \<lfloor>of_nat len * r * (1 - 1 / 2 ^ 50)\<rfloor> \<le> shrink_size tpm len est"
    and "shrink_size tpm len est \<le> max 1 \<lfloor>of_nat len * r * (1 + 1 / 2 ^ 50)\<rfloor>"
proof -
  define u :: rat where "u = 1 / 2 ^ 53"
  have u: "0 < u" "u < 1" by (simp_all add: u_def)
  define lo2 where "lo2 = (1 - u) * (1 - u) / (1 + u)"
  define hi2 where "hi2 = (1 + u) * (1 + u) / (1 - u)"
  have lo2: "0 < lo2" unfolding lo2_def using u by (intro divide_pos_pos mult_pos_pos) simp_all
  have hi2: "0 < hi2" unfolding hi2_def using u by (intro divide_pos_pos mult_pos_pos) simp_all
  define q where "q = shrink_ratio tpm est"
  have q: "r * lo2 \<le> q" "q \<le> r * hi2" "0 < q"
    using shrink_ratio_bounds [OF est, of tpm] by (simp_all add: q_def r_def lo2_def hi2_def u_def)
  have "(1 / 100 :: rat) \<le> r" unfolding r_def by (rule max.cobounded1)
  then have r: "0 < r" by linarith
  define n :: rat where "n = of_nat len"
  have n: "0 < n" using len by (simp add: n_def)
  define L where "L = fl n"
  have L: "n * (1 - u) \<le> L" "L \<le> n * (1 + u)" "0 < L"
    using fl_pos_bounds [OF n] fl_pos [OF n] by (simp_all add: L_def u_def)
  have Lq: "0 < L * q" using L(3) q(3) by (rule mult_pos_pos)
  define y where "y = fl (L * q)"
  have y: "L * q * (1 - u) \<le> y" "y \<le> L * q * (1 + u)" "0 < y"
    using fl_pos_bounds [OF Lq] fl_pos [OF Lq] by (simp_all add: y_def u_def)
  have "L * q \<le> n * (1 + u) * (r * hi2)"
    using L q u by (intro mult_mono) simp_all
  then have "L * q * (1 + u) \<le> n * (1 + u) * (r * hi2) * (1 + u)"
    using u by (intro mult_right_mono) simp_all
  also have "\<dots> = n * r * ((1 + u) * (1 + u) * hi2)" by (simp add: algebra_simps)
  also have "\<dots> \<le> n * r * (1 + 1 / 2 ^ 50)"
    using roundoff_factors(1) n r unfolding hi2_def u_def
    by (intro mult_left_mono) simp_all
  finally have "L * q * (1 + u) \<le> n * r * (1 + 1 / 2 ^ 50)" .
  with y(2) have y_hi: "y \<le> n * r * (1 + 1 / 2 ^ 50)" by linarith
  have "n * r * (1 - 1 / 2 ^ 50) \<le> n * r * ((1 - u) * (1 - u) * lo2)"
    using roundoff_factors(2) n r unfolding lo2_def u_def
    by (intro mult_left_mono) simp_all
  also have "\<dots> = n * (1 - u) * (r * lo2) * (1 - u)" by (simp add: algebra_simps)
  also have "\<dots> \<le> L * q * (1 - u)"
  proof -
    have "n * (1 - u) * (r * lo2) \<le> L * q"
      using L q u n r lo2 by (intro mult_mono) simp_all
    then show ?thesis using u by (intro mult_right_mono) simp_all
  qed
  finally have "n * r * (1 - 1 / 2 ^ 50) \<le> L * q * (1 - u)" .
  with y(1) have y_lo: "n * r * (1 - 1 / 2 ^ 50) \<le> y" by linarith
  have s: "shrink_size tpm len est = max 1 \<lfloor>y\<rfloor>"
    using y(3) by (simp add: shrink_size_def py_trunc_def y_def L_def n_def q_def)
  from y_lo have A: "max 1 \<lfloor>n * r * (1 - 1 / 2 ^ 50)\<rfloor> \<le> max 1 \<lfloor>y\<rfloor>"
    by (intro max.mono order_refl floor_mono)
  show "max 1 \<lfloor>of_nat len * r * (1 - 1 / 2 ^ 50)\<rfloor> \<le> shrink_size tpm len est"
    using A unfolding s n_def .
  from y_hi have B: "max 1 \<lfloor>y\<rfloor> \<le> max 1 \<lfloor>n * r * (1 + 1 / 2 ^ 50)\<rfloor>"
    by (intro max.mono order_refl floor_mono)
  show "shrink_size tpm len est \<le> max 1 \<lfloor>of_nat len * r * (1 + 1 / 2 ^ 50)\<rfloor>"
    using B unfolding s n_def .
qed

lemma shrink_size_less:
  fixes tpm est :: int and len :: nat
  assumes "tpm < est" and "0 < est" and "est \<le> 10 ^ 15" and "1 < len"
  shows "shrink_size tpm len est < int len"
proof -
  define r :: rat where "r = max (1 / 100) (of_int tpm / of_int est)"
  define n :: rat where "n = of_nat len"
  have n: "0 < n" using assms(4) by (simp add: n_def)
  have E: "(0::rat) < of_int est" using assms(2) by simp
  from assms(1) have "tpm \<le> est - 1" by simp
  then have "(of_int tpm :: rat) \<le> of_int (est - 1)" by (simp only: of_int_le_iff)
  then have "(of_int tpm :: rat) / of_int est \<le> of_int (est - 1) / of_int est"
    using E by (intro divide_right_mono) simp_all
  also have "\<dots> = 1 - 1 / of_int est" using E by (simp add: field_simps)
  also have "\<dots> \<le> 1 - 1 / 10 ^ 15"
  proof -
    from assms(3) have "(of_int est :: rat) \<le> of_int (10 ^ 15)" by (simp only: of_int_le_iff)
    then have "(of_int est :: rat) \<le> 10 ^ 15" by simp
    then have "(1 :: rat) / 10 ^ 15 \<le> 1 / of_int est"
      using E by (intro divide_left_mono) simp_all
    then show ?thesis by linarith
  qed
  finally have "(of_int tpm :: rat) / of_int est \<le> 1 - 1 / 10 ^ 15" .
  then have r: "r \<le> 1 - 1 / 10 ^ 15" by (simp add: r_def)
  have "n * r * (1 + 1 / 2 ^ 50) \<le> n * (1 - 1 / 10 ^ 15) * (1 + 1 / 2 ^ 50)"
    using r n by (intro mult_right_mono mult_left_mono) simp_all
  also have "\<dots> = n * ((1 - 1 / 10 ^ 15) * (1 + 1 / 2 ^ 50))" by simp
  also have "\<dots> < n * 1"
    using n by (intro mult_strict_left_mono) simp_all
  finally have "n * r * (1 + 1 / 2 ^ 50) < of_int (int len)" by (simp add: n_def)
  then have "\<lfloor>n * r * (1 + 1 / 2 ^ 50)\<rfloor> < int len" by (simp only: floor_less_iff)
  with assms(4) have "max 1 \<lfloor>n * r * (1 + 1 / 2 ^ 50)\<rfloor> < int len" by simp
  with shrink_size_bounds(2) [of est len tpm] assms(2,4) show ?thesis
    unfolding r_def n_def by simp
qed

lemma estimate_tokens_pos: "1 \<le> estimate_tokens e texts"
  by (simp add: estimate_tokens_def split: option.splits)

lemma sum_list_take_le: "sum_list (map f (take n xs)) \<le> (sum_list (map f xs) :: nat)"
proof -
  have "sum_list (map f xs) = sum_list (map f (take n xs)) + sum_list (map f (drop n xs))"
    by (metis append_take_drop_id map_append sum_list_append)
  then show ?thesis by simp
qed

lemma estimate_tokens_take: "estimate_tokens e (take n texts) \<le> estimate_tokens e texts"
proof (cases "tokenizer e")
  case None
  have "int (sum_list (map length (take n texts))) div 4 \<le> int (sum_list (map length texts)) div 4"
    by (intro zdiv_mono1) (simp_all add: sum_list_take_le)
  then show ?thesis using None by (simp add: estimate_tokens_def)
next
  case (Some enc)
  have "sum_list (map (\<lambda>t. if t = [] then 0 else enc t) (take n texts))
      \<le> sum_list (map (\<lambda>t. if t = [] then 0 else enc t) texts)"
    by (rule sum_list_take_le)
  then show ?thesis using Some by (simp add: estimate_tokens_def)
qed

lemma py_slice_prefix:
  assumes "0 \<le> i" and "nat i < length xs"
  shows "\<exists>k. py_slice i hi xs = take k (drop (nat i) xs)"
proof -
  from assms have "clip_index (length xs) i = nat i"
    by (simp add: clip_index_def min_def)
  then have "py_slice i hi xs = take (clip_index (length xs) hi - nat i) (drop (nat i) xs)"
    by (simp add: py_slice_def Let_def)
  then show ?thesis by blast
qed

text \<open>
  Claim C6, amended. For a batch of more than one item whose estimated cost, at most
  \<open>10^15\<close> tokens, exceeds the TPM limit, the shrink step yields a new batch that is a
  non-empty, strictly shorter prefix of the old one. Its size is
  \<open>max(1, floor(old_size * max(0.01, TPM / estimated)))\<close> up to the rounding of the float
  operations (a factor within \<open>2^-50\<close> of 1 on the product), and its cost, estimated
  again, is at most the old estimate. The new estimate is not bounded by the TPM limit.
\<close>

theorem shrink_step:
  assumes "0 \<le> i" and "nat i < length texts"
    and "batch = py_slice i (i + batch_size e) texts"
    and "estimated = estimate_tokens e batch"
    and "tpm_limit e < estimated" and "1 < length batch"
    and "estimated \<le> 10 ^ 15"
    and "new_batch = fst (select_batch e texts i)"
  shows "1 \<le> length new_batch \<and> length new_batch < length batch
       \<and> new_batch = take (length new_batch) batch
       \<and> new_batch = take (length new_batch) (drop (nat i) texts)
       \<and> int (length new_batch) = shrink_size (tpm_limit e) (length batch) estimated
       \<and> max 1 \<lfloor>of_nat (length batch)
                  * max (1 / 100) (of_int (tpm_limit e) / of_int estimated :: rat)
                  * (1 - 1 / 2 ^ 50)\<rfloor> \<le> int (length new_batch)
       \<and> int (length new_batch)
           \<le> max 1 \<lfloor>of_nat (length batch)
                      * max (1 / 100) (of_int (tpm_limit e) / of_int estimated :: rat)
                      * (1 + 1 / 2 ^ 50)\<rfloor>
       \<and> snd (select_batch e texts i) = estimate_tokens e new_batch
       \<and> snd (select_batch e texts i) \<le> estimated"
proof -
  define new_size where "new_size = shrink_size (tpm_limit e) (length batch) estimated"
  have est: "0 < estimated" using estimate_tokens_pos [of e batch] assms(4) by simp
  have len: "0 < length batch" using assms(6) by arith
  have n1: "1 \<le> new_size" unfolding new_size_def by (rule shrink_size_ge_1)
  have n2: "new_size < int (length batch)"
    unfolding new_size_def using assms(5) est assms(7) assms(6) by (rule shrink_size_less)
  from py_slice_prefix [OF assms(1,2)] obtain k where
    k: "batch = take k (drop (nat i) texts)" unfolding assms(3) by blast
  have sl: "py_slice i (i + new_size) texts = take (nat new_size) (drop (nat i) texts)"
    using assms(1) n1 by (intro py_slice_from) auto
  have sel: "select_batch e texts i
      = (py_slice i (i + new_size) texts, estimate_tokens e (py_slice i (i + new_size) texts))"
    using assms(3,4,5,6) by (simp add: select_batch_def Let_def new_size_def)
  from n1 n2 have nl: "nat new_size < length batch" by (simp add: nat_less_iff)
  with k have "nat new_size < k" "nat new_size < length (drop (nat i) texts)"
    by simp_all
  then have tk: "take (nat new_size) batch = take (nat new_size) (drop (nat i) texts)"
    unfolding k by (simp add: min_def)
  have nb: "new_batch = take (nat new_size) batch"
    unfolding assms(8) sel sl tk by simp
  from nl have ln: "length new_batch = nat new_size"
    unfolding nb by simp
  with n1 have il: "int (length new_batch) = new_size" by simp
  have e2: "snd (select_batch e texts i) = estimate_tokens e new_batch"
    unfolding sel nb sl tk by simp
  have "estimate_tokens e new_batch \<le> estimated"
    unfolding nb assms(4) by (rule estimate_tokens_take)
  with e2 have e3: "snd (select_batch e texts i) \<le> estimated" by simp
  note b = shrink_size_bounds [OF est len, of "tpm_limit e", folded new_size_def]
  from n1 nl ln have "1 \<le> length new_batch" "length new_batch < length batch"
    by (simp_all add: nat_le_iff)
  moreover have "new_batch = take (length new_batch) batch" unfolding ln by (rule nb)
  moreover have "new_batch = take (length new_batch) (drop (nat i) texts)"
    using tk nb unfolding ln by simp
  ultimately show ?thesis
    using b e2 e3 unfolding il new_size_def [symmetric] by simp
qed

lemma uneven_batch:
  "py_slice 0 (0 + batch_size (embedder0 100 64 50)) uneven_texts = uneven_texts"
  "estimate_tokens (embedder0 100 64 50) uneven_texts = 128"
  "length uneven_texts = 4"
  "tpm_limit (embedder0 100 64 50) = 64"
  by (simp_all add: py_slice_def clip_index_def embedder0_def uneven_texts_def estimate_tokens_def)

lemma uneven_shrink: "shrink_size 64 4 128 = 2"
  by (simp add: shrink_size_def shrink_ratio_def fl_pow2s fl_hundredth py_trunc_def Let_def)

lemma uneven_shrunk:
  "py_slice 0 (0 + 2) uneven_texts = [replicate 504 CHR ''a'', ''bbbb'']"
  "estimate_tokens (embedder0 100 64 50) [replicate 504 CHR ''a'', ''bbbb''] = 127"
  by (simp_all add: py_slice_def clip_index_def embedder0_def uneven_texts_def estimate_tokens_def)

lemma uneven_select:
  "select_batch (embedder0 100 64 50) uneven_texts 0 = ([replicate 504 CHR ''a'', ''bbbb''], 127)"
  unfolding select_batch_def Let_def uneven_batch uneven_shrink uneven_shrunk by simp

text \<open>
  Claim C6 says that the new estimate is at most the TPM limit unless the new size is 1.
  The shrink is proportional to the number of items, not to their cost: for one long text
  followed by three short ones, estimate 128 against a TPM limit of 64, the new size is 2
  and the new estimate is 127.
\<close>

theorem shrink_uneven_counterexample:
  "tpm_limit (embedder0 100 64 50) < estimate_tokens (embedder0 100 64 50) uneven_texts
   \<and> 1 < length uneven_texts
   \<and> shrink_size 64 (length uneven_texts) (estimate_tokens (embedder0 100 64 50) uneven_texts) = 2
   \<and> select_batch (embedder0 100 64 50) uneven_texts 0 = ([replicate 504 CHR ''a'', ''bbbb''], 127)
   \<and> \<not> (127 \<le> tpm_limit (embedder0 100 64 50) \<or> (2 :: int) = 1)"
  unfolding uneven_select uneven_batch uneven_shrink by simp

theorem shrink_step_witness:
  "(0 :: int) \<le> 0 \<and> nat 0 < length uneven_texts
   \<and> tpm_limit (embedder0 100 64 50) < estimate_tokens (embedder0 100 64 50) uneven_texts
   \<and> 1 < length uneven_texts
   \<and> estimate_tokens (embedder0 100 64 50) uneven_texts \<le> 10 ^ 15
   \<and> fst (select_batch (embedder0 100 64 50) uneven_texts 0) = take 2 uneven_texts
   \<and> length (fst (select_batch (embedder0 100 64 50) uneven_texts 0)) < length uneven_texts
   \<and> snd (select_batch (embedder0 100 64 50) uneven_texts 0)
       \<le> estimate_tokens (embedder0 100 64 50) uneven_texts"
proof -
  have a: "(0 :: int) \<le> 0" "nat 0 < length uneven_texts" "1 < length uneven_texts"
    by (simp_all add: uneven_batch)
  have b: "tpm_limit (embedder0 100 64 50) < estimate_tokens (embedder0 100 64 50) uneven_texts"
    unfolding uneven_batch by simp
  have c: "uneven_texts = py_slice 0 (0 + batch_size (embedder0 100 64 50)) uneven_texts"
    unfolding uneven_batch by simp
  have d: "estimate_tokens (embedder0 100 64 50) uneven_texts \<le> 10 ^ 15"
    unfolding uneven_batch by simp
  note r = shrink_step [OF a(1,2) c refl b a(3) d refl]
  from r have "int (length (fst (select_batch (embedder0 100 64 50) uneven_texts 0))) = 2"
    unfolding uneven_batch uneven_shrink by simp
  then have l: "length (fst (select_batch (embedder0 100 64 50) uneven_texts 0)) = 2" by simp
  from r have "fst (select_batch (embedder0 100 64 50) uneven_texts 0)
      = take (length (fst (select_batch (embedder0 100 64 50) uneven_texts 0))) uneven_texts"
    by simp
  then have t: "fst (select_batch (embedder0 100 64 50) uneven_texts 0) = take 2 uneven_texts"
    unfolding l .
  from r have "length (fst (select_batch (embedder0 100 64 50) uneven_texts 0)) < length uneven_texts"
    and "snd (select_batch (embedder0 100 64 50) uneven_texts 0)
       \<le> estimate_tokens (embedder0 100 64 50) uneven_texts"
    by simp_all
  with a b d t show ?thesis by simp
qed

subsection \<open>The daily limit of the AI parser\<close>

lemma fl_61: "fl 61 = 61" "fl 30 = 30"
  by code_simp+


lemma roll_window_parser [simp]:
  "tpd_limit (roll_window ck p) = tpd_limit p"
  "daily_tokens (roll_window ck p) = daily_tokens p"
  by (simp_all add: roll_window_def Let_def)

lemma parser_wait_daily:
  assumes "tpd_limit p < daily_tokens p + estimated_tokens"
  shows "parser_wait_for_budget ck estimated_tokens p = (Some DailyLimitExceeded, roll_window ck p)"
  using assms by (simp add: parser_wait_for_budget_def Let_def)



subsection \<open>The daily limit in \<open>parse_content\<close>\<close>

lemma parse_content_daily:
  assumes "raw_content \<noteq> []" and "strip raw_content \<noteq> []"
    and "tpd_limit p
          < daily_tokens p + (parser_estimate_tokens (truncate_input raw_content) + max_tokens p)"
  shows "parse_content env raw_content page_url (p, tr)
       = (Inr None, roll_window (clocks env (budget_checks tr)) p,
          tr\<lparr>budget_checks := Suc (budget_checks tr)\<rparr>)"
  using assms
  by (subst parse_content.simps) (simp add: parser_wait_daily Let_def)

text \<open>
  Claim C7, amended. When the daily token quota is exhausted, \<open>parse_content\<close> on a
  non-blank text requests no completion and retries nothing, reserves nothing, and returns
  no result (\<open>None\<close>) to its caller: the error of the budget check is caught inside
  \<open>parse_content\<close> and does not leave it.
\<close>

theorem daily_limit_returns_none:
  assumes "raw_content \<noteq> []" and "strip raw_content \<noteq> []"
    and "tpd_limit p
          < daily_tokens p + (parser_estimate_tokens (truncate_input raw_content) + max_tokens p)"
    and "parse_content env raw_content page_url (p, tr) = (result, p', tr')"
  shows "result = Inr None
       \<and> llm_calls tr' = llm_calls tr
       \<and> budget_checks tr' = Suc (budget_checks tr)
       \<and> daily_tokens p' = daily_tokens p
       \<and> p' = roll_window (clocks env (budget_checks tr)) p"
  using assms(4) unfolding parse_content_daily [OF assms(1,2,3)] by auto

lemma strip_page: "strip ''Welcome to the docs'' = ''Welcome to the docs''"
  by (simp add: strip_def is_space_def)

lemma late_page:
  "parse_content env_ready ''Welcome to the docs'' ''https://example.org'' (parser_late, trace0)
     = (Inr None, parser_late, \<lparr>llm_calls = 0, budget_checks = 1\<rparr>)"
proof -
  have "tpd_limit parser_late
      < daily_tokens parser_late
        + (parser_estimate_tokens (truncate_input ''Welcome to the docs'') + max_tokens parser_late)"
    by (simp add: parser_late_def truncate_input_def parser_estimate_tokens_def)
  moreover have "roll_window (clocks env_ready (budget_checks trace0)) parser_late = parser_late"
    by (simp add: env_ready_def roll_window_def clock_30_def parser_late_def fl_61 Let_def)
  ultimately show ?thesis
    by (simp add: parse_content_daily strip_page trace0_def)
qed

text \<open>
  Claim C7 says that the daily-limit error surfaces to the caller of \<open>parse_content\<close>. It
  does not: with the quota exhausted, the budget check raises and \<open>parse_content\<close>
  returns \<open>None\<close>.
\<close>

theorem daily_limit_not_surfaced_counterexample:
  "fst (parser_wait_for_budget (clocks env_ready 0)
          (parser_estimate_tokens ''Welcome to the docs'' + max_tokens parser_late) parser_late)
     = Some DailyLimitExceeded
   \<and> fst (parse_content env_ready ''Welcome to the docs'' ''https://example.org''
            (parser_late, trace0)) = Inr None
   \<and> fst (parse_content env_ready ''Welcome to the docs'' ''https://example.org''
            (parser_late, trace0)) \<noteq> Inl DailyLimitExceeded"
  unfolding late_page
  by (simp add: parser_wait_for_budget_def parser_late_def env_ready_def clock_30_def
      roll_window_def fl_61 parser_estimate_tokens_def Let_def)

theorem daily_limit_returns_none_witness:
  "''Welcome to the docs'' \<noteq> [] \<and> strip ''Welcome to the docs'' \<noteq> []
   \<and> tpd_limit parser_late
       < daily_tokens parser_late
         + (parser_estimate_tokens (truncate_input ''Welcome to the docs'') + max_tokens parser_late)
   \<and> parse_content env_ready ''Welcome to the docs'' ''https://example.org'' (parser_late, trace0)
       = (Inr None, parser_late, \<lparr>llm_calls = 0, budget_checks = 1\<rparr>)"
proof -
  have a: "''Welcome to the docs'' \<noteq> []" "strip ''Welcome to the docs'' \<noteq> []"
    by (simp_all add: strip_page)
  have b: "tpd_limit parser_late
       < daily_tokens parser_late
         + (parser_estimate_tokens (truncate_input ''Welcome to the docs'') + max_tokens parser_late)"
    by (simp add: parser_late_def truncate_input_def parser_estimate_tokens_def)
  from daily_limit_returns_none [OF a b late_page] a b late_page show ?thesis by simp
qed

text \<open>With budget left, the same page is sent to the model once and its answer returned.\<close>

lemma fresh_page:
  "parse_content env_ready ''Welcome to the docs'' ''https://example.org'' (parser_fresh, trace0)
     = (Inr (Some ''Clean text.''),
        parser_fresh\<lparr>window_requests := 6, window_tokens := 10028, daily_tokens := 1028\<rparr>,
        \<lparr>llm_calls = 1, budget_checks = 1\<rparr>)"
  by (subst parse_content.simps)
     (simp add: strip_page parser_fresh_def parser_late_def env_ready_def trace0_def clock_30_def
      parser_wait_for_budget_def roll_window_def fl_61 truncate_input_def
      parser_estimate_tokens_def strip_def is_space_def Let_def numeral_eq_Suc)

subsection \<open>Validation in \<open>upsert\<close>\<close>

lemma blank_strip: "strip s = [] \<longleftrightarrow> blank s"
proof
  assume "strip s = []"
  then have e: "dropWhile is_space (rev (dropWhile is_space s)) = []"
    by (simp add: strip_def)
  show "blank s"
  proof (cases "dropWhile is_space s")
    case Nil
    then show ?thesis by (simp add: blank_def list_all_iff dropWhile_eq_Nil_conv)
  next
    case (Cons c cs)
    then have "\<not> is_space c" using hd_dropWhile [of is_space s] by simp
    moreover from e Cons have "is_space c" by (simp add: dropWhile_eq_Nil_conv)
    ultimately show ?thesis by simp
  qed
next
  assume "blank s"
  then have d: "dropWhile is_space s = []"
    unfolding dropWhile_eq_Nil_conv by (simp add: blank_def list_all_iff)
  show "strip s = []" unfolding strip_def d by simp
qed

lemma blank_Nil: "blank []"
  by (simp add: blank_def)

lemma has_nan_inf_iff: "has_nan_inf v \<longleftrightarrow> \<not> list_all is_finite v"
proof -
  have "(py_ne x x \<or> py_eq x PosInf \<or> py_eq x NegInf) \<longleftrightarrow> \<not> is_finite x" for x
    by (cases x) (simp_all add: py_ne_def is_finite_def)
  then show ?thesis by (simp add: has_nan_inf_def list_ex_iff list_all_iff)
qed

lemma upsert_loop_step:
  "upsert_loop dims ((c, v) # rest) (data, skipped, out) =
     (if accepted dims (c, v) then upsert_loop dims rest (data @ [make_row c v], skipped, out)
      else upsert_loop dims rest (data, Suc skipped,
             out @ (if blank (chunk_text c) then []
                    else if v = [] \<or> int (length v) \<noteq> dims then [WarnWrongDim (length v) dims]
                    else [WarnNanInf])))"
  using blank_Nil
  by (auto simp: accepted_def valid_pair_def blank_strip has_nan_inf_iff)

lemma upsert_loop_result:
  "\<exists>ws. upsert_loop dims pairs (data, skipped, out) =
     (data @ map (\<lambda>(c, v). make_row c v) (filter (accepted dims) pairs),
      skipped + length (filter (\<lambda>p. \<not> accepted dims p) pairs),
      out @ ws)
     \<and> (\<forall>a b. WarnSkipped a b \<notin> set ws)"
proof (induction pairs arbitrary: data skipped out)
  case Nil
  then show ?case by simp
next
  case (Cons p pairs)
  obtain c v where p: "p = (c, v)" by (cases p)
  show ?case
  proof (cases "accepted dims (c, v)")
    case True
    from Cons.IH [of "data @ [make_row c v]" skipped out] True p show ?thesis
      by (auto simp: upsert_loop_step simp del: upsert_loop.simps)
  next
    case False
    let ?w = "if blank (chunk_text c) then []
              else if v = [] \<or> int (length v) \<noteq> dims then [WarnWrongDim (length v) dims]
              else [WarnNanInf]"
    from Cons.IH [of data "Suc skipped" "out @ ?w"] obtain ws where
      ws: "upsert_loop dims pairs (data, Suc skipped, out @ ?w) =
         (data @ map (\<lambda>(c, v). make_row c v) (filter (accepted dims) pairs),
          Suc skipped + length (filter (\<lambda>p. \<not> accepted dims p) pairs), (out @ ?w) @ ws)"
      and no: "\<forall>a b. WarnSkipped a b \<notin> set ws"
      by blast
    have "\<forall>a b. WarnSkipped a b \<notin> set (?w @ ws)" using no by auto
    with ws False p show ?thesis
      by (intro exI [of _ "?w @ ws"]) (simp add: upsert_loop_step del: upsert_loop.simps)
  qed
qed

lemma upsert_result:
  assumes "chunks = first # others"
  shows "stored (fst (upsert vs chunks embeddings))
           = (stored vs)(get_collection vs (source_type first) :=
                stored vs (get_collection vs (source_type first))
                @ map (\<lambda>(c, v). make_row c v)
                    (filter (accepted (dimensions vs)) (zip chunks embeddings)))"
    and "\<forall>a b. WarnSkipped a b \<in> set (snd (upsert vs chunks embeddings))
            \<longleftrightarrow> (a = length (filter (\<lambda>p. \<not> accepted (dimensions vs) p) (zip chunks embeddings))
                 \<and> b = length chunks
                 \<and> 0 < length (filter (\<lambda>p. \<not> accepted (dimensions vs) p) (zip chunks embeddings)))"
proof -
  define pairs where "pairs = zip chunks embeddings"
  define k where "k = length (filter (\<lambda>p. \<not> accepted (dimensions vs) p) pairs)"
  define coll where "coll = get_collection vs (source_type first)"
  from upsert_loop_result [of "dimensions vs" pairs "[]" 0 "[]"] obtain ws where
    loop: "upsert_loop (dimensions vs) pairs ([], 0, []) =
        (map (\<lambda>(c, v). make_row c v) (filter (accepted (dimensions vs)) pairs), k, ws)"
    and no: "\<forall>a b. WarnSkipped a b \<notin> set ws"
    unfolding k_def by auto
  have "stored (fst (upsert vs chunks embeddings))
           = (stored vs)(coll := stored vs coll
                @ map (\<lambda>(c, v). make_row c v) (filter (accepted (dimensions vs)) pairs))"
  proof (cases "embeddings = []")
    case True
    then show ?thesis using assms(1) by (simp add: upsert_def pairs_def)
  next
    case False
    then show ?thesis
      using assms(1) loop unfolding pairs_def coll_def
      by (simp add: upsert_def Let_def)
  qed
  then show "stored (fst (upsert vs chunks embeddings))
           = (stored vs)(get_collection vs (source_type first) :=
                stored vs (get_collection vs (source_type first))
                @ map (\<lambda>(c, v). make_row c v)
                    (filter (accepted (dimensions vs)) (zip chunks embeddings)))"
    by (simp add: pairs_def coll_def)
  have "\<forall>a b. WarnSkipped a b \<in> set (snd (upsert vs chunks embeddings))
            \<longleftrightarrow> (a = k \<and> b = length chunks \<and> 0 < k)"
  proof (cases "embeddings = []")
    case True
    then show ?thesis using assms(1) by (simp add: upsert_def pairs_def k_def)
  next
    case False
    then show ?thesis
      using assms(1) loop no unfolding pairs_def coll_def
      by (auto simp: upsert_def Let_def)
  qed
  then show "\<forall>a b. WarnSkipped a b \<in> set (snd (upsert vs chunks embeddings))
            \<longleftrightarrow> (a = length (filter (\<lambda>p. \<not> accepted (dimensions vs) p) (zip chunks embeddings))
                 \<and> b = length chunks
                 \<and> 0 < length (filter (\<lambda>p. \<not> accepted (dimensions vs) p) (zip chunks embeddings)))"
    by (simp add: k_def pairs_def)
qed


lemma accepted_valid: "0 < dims \<Longrightarrow> accepted dims p = valid_pair dims p"
  by (auto simp: accepted_def valid_pair_def)

text \<open>
  Claim C8. For every call of \<open>upsert\<close>, the rows inserted are those of the pairs of
  \<open>zip(chunks, embeddings)\<close> that pass all three checks (text not blank, vector of the
  configured dimension, every value finite) and have a non-empty vector; every other pair
  is skipped and inserts nothing. The number of skipped pairs is printed, with the number
  of chunks, whenever it is not zero, and no other skip count is printed.
\<close>

theorem upsert_skips_invalid:
  "(\<exists>coll. stored (fst (upsert vs chunks embeddings))
       = (stored vs)(coll := stored vs coll
            @ map (\<lambda>(c, v). make_row c v)
                (filter (\<lambda>p. valid_pair (dimensions vs) p \<and> snd p \<noteq> []) (zip chunks embeddings))))
   \<and> (\<forall>a b. WarnSkipped a b \<in> set (snd (upsert vs chunks embeddings))
         \<longleftrightarrow> (a = length (filter (\<lambda>p. \<not> (valid_pair (dimensions vs) p \<and> snd p \<noteq> []))
                              (zip chunks embeddings))
              \<and> b = length chunks \<and> 0 < a))"
proof (cases chunks)
  case Nil
  then show ?thesis by (auto simp: upsert_def)
next
  case (Cons first others)
  have acc: "accepted (dimensions vs) = (\<lambda>p. valid_pair (dimensions vs) p \<and> snd p \<noteq> [])"
    by (rule ext) (simp add: accepted_def)
  note r = upsert_result [OF Cons, of vs embeddings, unfolded acc]
  from r(1) have "\<exists>coll. stored (fst (upsert vs chunks embeddings))
       = (stored vs)(coll := stored vs coll
            @ map (\<lambda>(c, v). make_row c v)
                (filter (\<lambda>p. valid_pair (dimensions vs) p \<and> snd p \<noteq> []) (zip chunks embeddings)))"
    by blast
  moreover from r(2) have "\<forall>a b. WarnSkipped a b \<in> set (snd (upsert vs chunks embeddings))
         \<longleftrightarrow> (a = length (filter (\<lambda>p. \<not> (valid_pair (dimensions vs) p \<and> snd p \<noteq> []))
                              (zip chunks embeddings))
              \<and> b = length chunks \<and> 0 < a)"
    by auto
  ultimately show ?thesis by blast
qed

lemma sample_valid:
  "valid_pair 2 (chunk_doc, v_ok)" "valid_pair 2 (chunk_chat, v_ok)"
  "\<not> valid_pair 2 (chunk_blank, v_ok)" "\<not> valid_pair 2 (chunk_doc, v_short)"
  "\<not> valid_pair 2 (chunk_doc, v_nan)" "v_ok \<noteq> []"
  by (simp_all add: valid_pair_def blank_def is_space_def is_finite_def chunk_doc_def
      chunk_chat_def chunk_blank_def v_ok_def v_short_def v_nan_def)

lemma store2_fields:
  "dimensions store2 = 2" "collection_docs store2 = ''rag_documents''"
  "collection_chats store2 = ''rag_conversations''" "stored store2 = (\<lambda>name. [])"
  by (simp_all add: store2_def VectorStore_init_def VECTOR_DB_collection_docs_def
      VECTOR_DB_collection_chats_def)

theorem upsert_skips_invalid_witness:
  "(\<exists>coll. stored (fst (upsert store2 [chunk_blank, chunk_doc, chunk_doc, chunk_doc]
                              [v_ok, v_short, v_nan, v_ok]))
       = (\<lambda>name. [])(coll := [make_row chunk_doc v_ok]))
   \<and> WarnSkipped 3 4 \<in> set (snd (upsert store2 [chunk_blank, chunk_doc, chunk_doc, chunk_doc]
                                      [v_ok, v_short, v_nan, v_ok]))"
  using upsert_skips_invalid [of store2 "[chunk_blank, chunk_doc, chunk_doc, chunk_doc]"
      "[v_ok, v_short, v_nan, v_ok]"]
  by (simp add: store2_fields sample_valid)

subsection \<open>The collection \<open>upsert\<close> writes to\<close>

text \<open>
  Claim C9 says that each fragment goes to the collection of its own source type, for every
  mix within one call. The collection is chosen once, from the first chunk: a call with a
  text chunk followed by a chat chunk inserts both into the documents collection and
  nothing into the conversations collection.
\<close>

theorem upsert_mixed_batch_counterexample:
  "source_type chunk_chat = ''chat''
   \<and> get_collection store2 (source_type chunk_chat) = ''rag_conversations''
   \<and> stored (fst (upsert store2 [chunk_doc, chunk_chat] [v_ok, v_ok])) ''rag_conversations'' = []
   \<and> stored (fst (upsert store2 [chunk_doc, chunk_chat] [v_ok, v_ok])) ''rag_documents''
       = [make_row chunk_doc v_ok, make_row chunk_chat v_ok]"
proof -
  have "stored (fst (upsert store2 [chunk_doc, chunk_chat] [v_ok, v_ok]))
      = (\<lambda>name. [])(''rag_documents'' := [make_row chunk_doc v_ok, make_row chunk_chat v_ok])"
    using upsert_result(1) [of "[chunk_doc, chunk_chat]" chunk_doc "[chunk_chat]" store2 "[v_ok, v_ok]"]
    by (simp add: store2_fields accepted_def sample_valid get_collection_def)
       (simp add: chunk_doc_def)
  then show ?thesis
    by (simp add: get_collection_def store2_fields) (simp add: chunk_chat_def)
qed

text \<open>
  Claim C9, amended. Every fragment an \<open>upsert\<close> call inserts goes to the collection
  determined by the source type of the first fragment of the call: the conversations
  collection when that is \<open>chat\<close>, the documents collection otherwise. No other collection
  changes.
\<close>

theorem upsert_routes_by_first:
  assumes "chunks = first # others"
  shows "stored (fst (upsert vs chunks embeddings)) (get_collection vs (source_type first))
           = stored vs (get_collection vs (source_type first))
             @ map (\<lambda>(c, v). make_row c v)
                 (filter (\<lambda>p. valid_pair (dimensions vs) p \<and> snd p \<noteq> []) (zip chunks embeddings))
       \<and> (\<forall>coll. coll \<noteq> get_collection vs (source_type first) \<longrightarrow>
             stored (fst (upsert vs chunks embeddings)) coll = stored vs coll)
       \<and> get_collection vs (source_type first)
           = (if source_type first = ''chat'' then collection_chats vs else collection_docs vs)"
proof -
  have acc: "accepted (dimensions vs) = (\<lambda>p. valid_pair (dimensions vs) p \<and> snd p \<noteq> [])"
    by (rule ext) (simp add: accepted_def)
  note r = upsert_result(1) [OF assms, of vs embeddings, unfolded acc]
  show ?thesis unfolding r by (simp add: get_collection_def)
qed

theorem upsert_routes_by_first_witness:
  "stored (fst (upsert store2 [chunk_chat, chunk_doc] [v_ok, v_ok])) ''rag_conversations''
     = [make_row chunk_chat v_ok, make_row chunk_doc v_ok]
   \<and> stored (fst (upsert store2 [chunk_chat, chunk_doc] [v_ok, v_ok])) ''rag_documents'' = []"
proof -
  have c: "get_collection store2 (source_type chunk_chat) = ''rag_conversations''"
    by (simp add: get_collection_def store2_fields) (simp add: chunk_chat_def)
  note r = upsert_routes_by_first
    [of "[chunk_chat, chunk_doc]" chunk_chat "[chunk_doc]" store2 "[v_ok, v_ok]", OF refl,
     unfolded c]
  from r have "stored (fst (upsert store2 [chunk_chat, chunk_doc] [v_ok, v_ok])) ''rag_conversations''
      = stored store2 ''rag_conversations''
        @ map (\<lambda>(c, v). make_row c v)
            (filter (\<lambda>p. valid_pair (dimensions store2) p \<and> snd p \<noteq> [])
               (zip [chunk_chat, chunk_doc] [v_ok, v_ok]))"
    by (rule conjunct1)
  then have 1: "stored (fst (upsert store2 [chunk_chat, chunk_doc] [v_ok, v_ok])) ''rag_conversations''
      = [make_row chunk_chat v_ok, make_row chunk_doc v_ok]"
    by (simp add: store2_fields sample_valid)
  from r have "\<forall>coll. coll \<noteq> ''rag_conversations'' \<longrightarrow>
      stored (fst (upsert store2 [chunk_chat, chunk_doc] [v_ok, v_ok])) coll = stored store2 coll"
    by (rule conjunct1 [OF conjunct2])
  then have "stored (fst (upsert store2 [chunk_chat, chunk_doc] [v_ok, v_ok])) ''rag_documents''
      = stored store2 ''rag_documents''"
    by simp
  then have 2: "stored (fst (upsert store2 [chunk_chat, chunk_doc] [v_ok, v_ok])) ''rag_documents'' = []"
    by (simp add: store2_fields)
  from 1 2 show ?thesis by (rule conjI)
qed

end
